theory Spec2Isabelle
  imports Main
begin

section \<open>Cardano address clustering: the data model\<close>

text \<open>
  The development follows the TypeScript sources: the interfaces \<^verbatim>\<open>Utxo\<close>,
  \<^verbatim>\<open>AddressInfo\<close> and \<^verbatim>\<open>IBlockchainDataSource\<close>, the credential resolvers
  \<^verbatim>\<open>getPaymentCredential\<close> and \<^verbatim>\<open>getStakingCredential\<close>, the class
  \<^verbatim>\<open>BlockfrostBlockchainDataSource\<close> and the class \<^verbatim>\<open>ClusteredWallet\<close> with its
  method \<^verbatim>\<open>discover\<close>.  A \<^verbatim>\<open>bigint\<close> is an \<open>int\<close>, a \<^verbatim>\<open>string\<close> a
  \<open>string\<close>, an array a list.  A rejected promise or a thrown exception is the \<open>Inl\<close>
  of a sum; \<^verbatim>\<open>await\<close> is sequential composition, since the code never has two
  requests in flight.  A data source is taken to answer a question the same way each
  time it is asked.
\<close>

subsection \<open>Exceptions\<close>

text \<open>
  The exceptions the code can meet, as values.  \<open>InvalidAddress\<close> is what
  \<^verbatim>\<open>Cardano.Address.fromBech32\<close> throws on a text that is no address;
  \<open>InvalidAssetId\<close> is \<^verbatim>\<open>Cardano.AssetId\<close> refusing a text;
  \<open>TypeError p\<close> is the runtime error of reading property \<open>p\<close> of \<^verbatim>\<open>undefined\<close>;
  \<open>SyntaxError\<close> is \<^verbatim>\<open>BigInt\<close> refusing a text; \<open>ProviderError\<close> is a rejection
  of a data provider's promise; \<open>SinkError\<close> is an exception thrown by a progress
  monitor's \<^verbatim>\<open>update\<close>.
\<close>

datatype exn =
    InvalidAddress
  | InvalidAssetId
  | TypeError string
  | SyntaxError
  | ProviderError string
  | SinkError string

text \<open>
  How a run of \<^verbatim>\<open>discover\<close> can end without a wallet: an exception came out of a
  collaborator (\<open>Thrown\<close>), or \<^verbatim>\<open>_popFromSet\<close> fell off its end and the loop went
  on with \<^verbatim>\<open>undefined\<close> for an address (\<open>UndefinedAddress\<close>), which no value of the
  declared type \<^verbatim>\<open>string\<close> stands for.
\<close>

datatype failure = Thrown exn | UndefinedAddress

subsection \<open>Values, UTXOs, address and reward-account records\<close>

text \<open>
  \<^verbatim>\<open>Cardano.Value\<close>: coins and a \<^verbatim>\<open>Map\<close> from asset id to quantity.  A
  \<^verbatim>\<open>Map\<close> iterates in insertion order, so it is an association list.
\<close>

record Value =
  coins :: int
  assets :: "(string \<times> int) list"

text \<open>
  \<^verbatim>\<open>Utxo.ts\<close>; the fields \<^verbatim>\<open>value\<close> and \<^verbatim>\<open>address\<close> are \<open>value'\<close> and
  \<open>address'\<close> here.
\<close>

record Utxo =
  txHash :: string
  index :: int
  value' :: Value
  address' :: string

text \<open>
  \<^verbatim>\<open>RewardAccountInfo\<close>, from its uses: \<^verbatim>\<open>poolId\<close> is \<^verbatim>\<open>null\<close> for an
  account that delegates to no pool.
\<close>

record RewardAccountInfo =
  stakingCredential :: string
  rewards :: int
  stakedAmount :: int
  poolId :: "string option"

text \<open>
  \<^verbatim>\<open>AddressInfo\<close>; its fields carry the suffix \<open>AI\<close>, since \<^verbatim>\<open>discover\<close> uses
  the plain names for its local variables.  \<^verbatim>\<open>getStakingCredential\<close> may return
  \<^verbatim>\<open>null\<close>, so the staking credential is optional.
\<close>

record AddressInfo =
  addressAI :: string
  balanceAI :: Value
  utxosAI :: "Utxo list"
  paymentCredentialAI :: string
  stakingCredentialAI :: "string option"

subsection \<open>The data source interface\<close>

text \<open>
  \<^verbatim>\<open>IBlockchainDataSource\<close>: every lookup returns a promise, which resolves
  (\<open>Inr\<close>) or rejects (\<open>Inl\<close>).  \<^verbatim>\<open>getTransactions\<close> is not used by the
  discovery and is left out.
\<close>

record IBlockchainDataSource =
  getRewardAccounts :: "string \<Rightarrow> exn + string list"
  getRewardAccountInfo :: "string \<Rightarrow> exn + RewardAccountInfo option"
  getAddresses :: "string \<Rightarrow> exn + string list"
  getUtxos :: "string \<Rightarrow> exn + Utxo list"
  getNetworkId :: int

section \<open>JavaScript sets\<close>

text \<open>
  A \<^verbatim>\<open>Set\<close> keeps its members in insertion order and holds each once: a list
  without repetition.  \<^verbatim>\<open>add\<close> appends a new member and leaves the set alone
  otherwise; \<^verbatim>\<open>delete\<close> removes the member.
\<close>

definition set_add :: "'a \<Rightarrow> 'a list \<Rightarrow> 'a list" where
  "set_add v s = (if v \<in> set s then s else s @ [v])"

definition set_delete :: "'a \<Rightarrow> 'a list \<Rightarrow> 'a list" where
  "set_delete v s = removeAll v s"

text \<open>
  \<^verbatim>\<open>_popFromSet\<close>: the first member in iteration order, deleted from the set; on an
  empty set the loop body never runs and the function returns \<^verbatim>\<open>undefined\<close>
  (\<open>None\<close>).
\<close>

definition popFromSet :: "'a list \<Rightarrow> 'a option \<times> 'a list" where
  "popFromSet s = (case s of [] \<Rightarrow> (None, s) | v # _ \<Rightarrow> (Some v, set_delete v s))"

text \<open>\<^verbatim>\<open>_insertRangeInSet\<close>: adds the members of the array, in order.\<close>

definition insertRangeInSet :: "'a list \<Rightarrow> 'a list \<Rightarrow> 'a list" where
  "insertRangeInSet array s = foldl (\<lambda>acc v. set_add v acc) s array"

section \<open>Progress notification\<close>

text \<open>
  A progress monitor is an object with a method \<^verbatim>\<open>update(message)\<close>.  It may keep a
  state \<open>'s\<close> of its own (a log, a counter) and it may throw.  The parameter is
  optional: \<^verbatim>\<open>progressMonitor?.update(m)\<close> does nothing when there is none.
\<close>

type_synonym 's monitor = "string \<Rightarrow> 's \<Rightarrow> exn + 's"

definition notify :: "'s monitor option \<Rightarrow> string \<Rightarrow> 's \<Rightarrow> failure + 's" where
  "notify progressMonitor message s =
     (case progressMonitor of
        None \<Rightarrow> Inr s
      | Some update \<Rightarrow>
          (case update message s of Inl e \<Rightarrow> Inl (Thrown e) | Inr s' \<Rightarrow> Inr s'))"

text \<open>A monitor whose \<^verbatim>\<open>update\<close> returns normally on every message, in every state.\<close>

definition neverThrows :: "'s monitor \<Rightarrow> bool" where
  "neverThrows update = (\<forall>message s. \<exists>s'. update message s = Inr s')"

text \<open>Decimal rendering of a number inside a template string.\<close>

definition digitChar :: "nat \<Rightarrow> char" where
  "digitChar d = char_of (of_char CHR ''0'' + d)"

fun string_of_nat :: "nat \<Rightarrow> string" where
  "string_of_nat n =
     (if 10 \<le> n then string_of_nat (n div 10) @ [digitChar (n mod 10)] else [digitChar n])"

definition string_of_int :: "int \<Rightarrow> string" where
  "string_of_int i = (if i < 0 then CHR ''-'' # string_of_nat (nat (- i)) else string_of_nat (nat i))"

section \<open>The frontier loop of discover\<close>

text \<open>The three sets the loop of \<^verbatim>\<open>discover\<close> works on.\<close>

record discovery =
  clusterAddresses :: "string list"
  clusterRewardAccounts :: "string list"
  addressToExplore :: "string list"

text \<open>
  The inner loop, \<^verbatim>\<open>for (const rewardAccount of rewardAccounts)\<close>: a reward account
  already in \<^verbatim>\<open>clusterRewardAccounts\<close> is skipped; a new one is recorded, its
  addresses are fetched and inserted both in the frontier and in the cluster.
\<close>

fun exploreRewardAccounts ::
  "IBlockchainDataSource \<Rightarrow> 's monitor option \<Rightarrow> string list \<Rightarrow> discovery \<Rightarrow> 's
     \<Rightarrow> failure + discovery \<times> 's" where
  "exploreRewardAccounts blockchainExplorer progressMonitor [] st s = Inr (st, s)"
| "exploreRewardAccounts blockchainExplorer progressMonitor (rewardAccount # rest) st s =
     (if rewardAccount \<in> set (clusterRewardAccounts st)
      then exploreRewardAccounts blockchainExplorer progressMonitor rest st s
      else
        let st1 = st\<lparr>clusterRewardAccounts := set_add rewardAccount (clusterRewardAccounts st)\<rparr> in
        case notify progressMonitor (''Searching '' @ rewardAccount @ '' for new addresses...'') s of
          Inl e \<Rightarrow> Inl e
        | Inr s1 \<Rightarrow>
            (case getAddresses blockchainExplorer rewardAccount of
               Inl e \<Rightarrow> Inl (Thrown e)
             | Inr addresses \<Rightarrow>
                 let startingAddressCount = length (clusterAddresses st1);
                     st2 = st1\<lparr>addressToExplore := insertRangeInSet addresses (addressToExplore st1)\<rparr>;
                     st3 = st2\<lparr>clusterAddresses := insertRangeInSet addresses (clusterAddresses st2)\<rparr>;
                     endingAddressCount = length (clusterAddresses st3)
                 in
                 (case notify progressMonitor
                         (''Found '' @ string_of_int (int endingAddressCount - int startingAddressCount)
                            @ '' new addresses.'') s1 of
                    Inl e \<Rightarrow> Inl e
                  | Inr s2 \<Rightarrow> exploreRewardAccounts blockchainExplorer progressMonitor rest st3 s2)))"

text \<open>
  The outer loop, \<^verbatim>\<open>while (isDiscovering)\<close>.  It leaves at the \<^verbatim>\<open>break\<close> on an
  empty frontier, or when \<^verbatim>\<open>isDiscovering\<close> becomes false at the end of the body;
  \<^verbatim>\<open>continue\<close> goes back to the test with \<^verbatim>\<open>isDiscovering\<close> still true.
\<close>

function discoverLoop ::
  "IBlockchainDataSource \<Rightarrow> 's monitor option \<Rightarrow> discovery \<Rightarrow> 's \<Rightarrow> failure + discovery \<times> 's" where
  "discoverLoop blockchainExplorer progressMonitor st s =
     (if length (addressToExplore st) = 0 then Inr (st, s)
      else
        case popFromSet (addressToExplore st) of
          (None, remaining) \<Rightarrow> Inl UndefinedAddress
        | (Some address, remaining) \<Rightarrow>
            let st0 = st\<lparr>addressToExplore := remaining\<rparr> in
            if address \<in> set (clusterAddresses st0)
            then discoverLoop blockchainExplorer progressMonitor st0 s
            else
              case notify progressMonitor (''Getting reward accounts for '' @ address @ ''.'') s of
                Inl e \<Rightarrow> Inl e
              | Inr s1 \<Rightarrow>
                  (case getRewardAccounts blockchainExplorer address of
                     Inl e \<Rightarrow> Inl (Thrown e)
                   | Inr rewardAccounts \<Rightarrow>
                       (case exploreRewardAccounts blockchainExplorer progressMonitor rewardAccounts st0 s1 of
                          Inl e \<Rightarrow> Inl e
                        | Inr (st1, s2) \<Rightarrow>
                            if length (addressToExplore st1) > 0
                            then discoverLoop blockchainExplorer progressMonitor st1 s2
                            else Inr (st1, s2))))"
  by pat_completeness auto

text \<open>
  The measure of the loop's termination, proved below.  Call an address of the
  frontier \<^emph>\<open>pending\<close> when it is not yet in \<^verbatim>\<open>clusterAddresses\<close>.  The inner loop
  inserts the same addresses in both sets, so it adds no pending address; a turn of
  the outer loop that expands an address removes that pending address from the
  frontier, and a turn that skips one shortens the frontier.
\<close>

definition pending :: "discovery \<Rightarrow> string set" where
  "pending st = set (addressToExplore st) - set (clusterAddresses st)"

section \<open>The credential resolvers\<close>

subsection \<open>The libraries the code imports\<close>

text \<open>
  \<^verbatim>\<open>@cardano-sdk/core\<close>, \<^verbatim>\<open>@scure/base\<close> and the built-in \<^verbatim>\<open>BigInt\<close> are not
  part of the repository; the model takes them as a parameter.  A decoded
  \<^verbatim>\<open>Cardano.Address\<close> is seen through its views: as an enterprise address, as a
  base address and as a pointer address, each \<^verbatim>\<open>undefined\<close> when the address is of
  another kind.  The code reads the first two only; a pointer address carries a payment
  credential as well (with a pointer to a stake registration, left out here), and a
  reward address has none of the three views.  A credential is a hash with its kind.
\<close>

datatype CredentialType = KeyHash | ScriptHash

record Credential =
  credentialType :: CredentialType
  hash :: string

record EnterpriseAddress =
  enterprisePaymentCredential :: Credential

record BaseAddress =
  basePaymentCredential :: Credential
  baseStakeCredential :: Credential

record PointerAddress =
  pointerPaymentCredential :: Credential

record Address =
  asEnterprise :: "EnterpriseAddress option"
  asBase :: "BaseAddress option"
  asPointer :: "PointerAddress option"

text \<open>
  \<^item> \<open>fromBech32\<close>: \<^verbatim>\<open>Cardano.Address.fromBech32\<close>, \<open>None\<close> when it throws;
  \<^item> \<open>hexToWords\<close>: \<^verbatim>\<open>bech32.toWords(Buffer.from(h, 'hex'))\<close>;
  \<^item> \<open>bech32_encode\<close>: \<^verbatim>\<open>bech32.encode(prefix, words, limit)\<close>; a credential hash is
    28 bytes (the SDK's type \<^verbatim>\<open>Hash28ByteBase16\<close>), far below the limit the code
    passes, so the encoder's length check is not modelled;
  \<^item> \<open>rewardAddressBech32\<close>:
    \<^verbatim>\<open>Cardano.RewardAddress.fromCredentials(networkId, c).toAddress().toBech32()\<close>;
  \<^item> \<open>coalesceValueQuantities\<close>: the function of that name of \<^verbatim>\<open>@cardano-sdk/core\<close>;
  \<^item> \<open>AssetId\<close>: \<^verbatim>\<open>Cardano.AssetId\<close>, \<open>None\<close> when it refuses the text;
  \<^item> \<open>BigInt\<close>: the built-in, \<open>None\<close> when it throws a \<^verbatim>\<open>SyntaxError\<close>.
\<close>

record Libraries =
  fromBech32 :: "string \<Rightarrow> Address option"
  hexToWords :: "string \<Rightarrow> nat list"
  bech32_encode :: "string \<Rightarrow> nat list \<Rightarrow> nat \<Rightarrow> string"
  rewardAddressBech32 :: "int \<Rightarrow> Credential \<Rightarrow> string"
  coalesceValueQuantities :: "Value list \<Rightarrow> Value"
  AssetId :: "string \<Rightarrow> string option"
  BigInt :: "string \<Rightarrow> int option"

subsection \<open>getPaymentCredential and getStakingCredential\<close>

definition MAX_BECH32_LENGTH_LIMIT :: nat where
  "MAX_BECH32_LENGTH_LIMIT = 1023"

definition VERIFICATION_KEY_HASH_PREFIX :: string where
  "VERIFICATION_KEY_HASH_PREFIX = ''addr_vkh''"

text \<open>
  \<^verbatim>\<open>getPaymentCredential\<close>: the enterprise view's credential, replaced by the base
  view's when the address is a base address.  When the address is neither,
  \<^verbatim>\<open>paymentCredential\<close> is \<^verbatim>\<open>undefined\<close> and reading its \<^verbatim>\<open>hash\<close> throws.
\<close>

definition getPaymentCredential :: "Libraries \<Rightarrow> string \<Rightarrow> exn + string" where
  "getPaymentCredential lib address =
     (case fromBech32 lib address of
        None \<Rightarrow> Inl InvalidAddress
      | Some addr \<Rightarrow>
          let paymentCredential0 = map_option enterprisePaymentCredential (asEnterprise addr);
              paymentCredential =
                (case asBase addr of
                   Some base \<Rightarrow> Some (basePaymentCredential base)
                 | None \<Rightarrow> paymentCredential0)
          in
          (case paymentCredential of
             None \<Rightarrow> Inl (TypeError ''hash'')
           | Some credential \<Rightarrow>
               let words = hexToWords lib (hash credential)
               in Inr (bech32_encode lib VERIFICATION_KEY_HASH_PREFIX words MAX_BECH32_LENGTH_LIMIT)))"

text \<open>
  \<^verbatim>\<open>getStakingCredential\<close>: \<^verbatim>\<open>null\<close> for an address that is no base address,
  else the reward address of the stake credential on the given network.
\<close>

definition getStakingCredential :: "Libraries \<Rightarrow> string \<Rightarrow> int \<Rightarrow> exn + string option" where
  "getStakingCredential lib address networkId =
     (case fromBech32 lib address of
        None \<Rightarrow> Inl InvalidAddress
      | Some addr \<Rightarrow>
          let credential = map_option baseStakeCredential (asBase addr)
          in
          (case credential of
             None \<Rightarrow> Inr None
           | Some c \<Rightarrow> Inr (Some (rewardAddressBech32 lib networkId c))))"

section \<open>Coalescing values\<close>

text \<open>
  \<^verbatim>\<open>Map.set\<close> on an association list: the value of a key already present is
  replaced where it stands, a new key is appended.
\<close>

fun map_set :: "'k \<Rightarrow> 'v \<Rightarrow> ('k \<times> 'v) list \<Rightarrow> ('k \<times> 'v) list" where
  "map_set k v [] = [(k, v)]"
| "map_set k v ((k', v') # m) = (if k' = k then (k, v) # m else (k', v') # map_set k v m)"

text \<open>
  Modelled from the spec: \<^verbatim>\<open>coalesceValueQuantities\<close> is a function of
  \<^verbatim>\<open>@cardano-sdk/core\<close>, which is not among the sources.  The spec (section 9)
  describes it as "folding a sequence of (coin-amount, asset-quantity-map) pairs via
  pointwise addition over a mapping keyed by asset identifier": the coins are summed,
  and every entry of every asset map is added to the running total of its asset id.
  \<open>coalescePointwise\<close> is that fold; the test libraries use it for the library
  function.
\<close>

definition addTokens :: "(string \<times> int) list \<Rightarrow> (string \<times> int) list \<Rightarrow> (string \<times> int) list" where
  "addTokens result assetTotals =
     foldl (\<lambda>acc (assetId, assetQuantity).
              map_set assetId ((case map_of acc assetId of None \<Rightarrow> 0 | Some n \<Rightarrow> n) + assetQuantity) acc)
       result assetTotals"

definition coalesceTokenMaps :: "(string \<times> int) list list \<Rightarrow> (string \<times> int) list" where
  "coalesceTokenMaps totals = foldl addTokens [] totals"

definition coalescePointwise :: "Value list \<Rightarrow> Value" where
  "coalescePointwise quantities =
     \<lparr>coins = sum_list (map coins quantities),
      assets = coalesceTokenMaps (map assets quantities)\<rparr>"

text \<open>
  The quantity an asset map gives an asset id: the sum of the entries under that id
  (a \<^verbatim>\<open>Map\<close> has at most one), zero when there is none.
\<close>

definition quantityOf :: "(string \<times> int) list \<Rightarrow> string \<Rightarrow> int" where
  "quantityOf m assetId = sum_list (map snd (filter (\<lambda>entry. fst entry = assetId) m))"

text \<open>
  What the claims call the coalesced sum: a function from a list of values to a value
  that adds the coins, and adds the quantities asset id by asset id.
\<close>

definition coalescesPointwise :: "(Value list \<Rightarrow> Value) \<Rightarrow> bool" where
  "coalescesPointwise f =
     (\<forall>vs. coins (f vs) = (\<Sum>v\<leftarrow>vs. coins v)
         \<and> (\<forall>assetId. quantityOf (assets (f vs)) assetId = (\<Sum>v\<leftarrow>vs. quantityOf (assets v) assetId)))"

section \<open>Building the wallet\<close>

text \<open>
  The class \<^verbatim>\<open>ClusteredWallet\<close>: its private fields (the leading underscore is the
  prefix \<open>p_\<close>) and its getters.  The getters \<^verbatim>\<open>getRewardAccounts\<close> and
  \<^verbatim>\<open>getAddresses\<close> carry the suffix \<open>W\<close>, the plain names being those of the
  data source's lookups.
\<close>

record ClusteredWallet =
  p_utxos :: "Utxo list"
  p_clusterAddresses :: "AddressInfo list"
  p_clusterRewardAccounts :: "RewardAccountInfo list"
  p_balance :: Value
  p_rewards :: int

definition getRewardAccountsW :: "ClusteredWallet \<Rightarrow> RewardAccountInfo list" where
  "getRewardAccountsW w = p_clusterRewardAccounts w"

definition getRewards :: "ClusteredWallet \<Rightarrow> int" where
  "getRewards w = p_rewards w"

definition getBalance :: "ClusteredWallet \<Rightarrow> Value" where
  "getBalance w = p_balance w"

definition getUTXOs :: "ClusteredWallet \<Rightarrow> Utxo list" where
  "getUTXOs w = p_utxos w"

definition getAddressesW :: "ClusteredWallet \<Rightarrow> AddressInfo list" where
  "getAddressesW w = p_clusterAddresses w"

text \<open>
  The loop over \<^verbatim>\<open>clusterAddresses\<close> (lines 117 to 131): the UTXOs of the address
  are pushed on \<^verbatim>\<open>clusterUtxos\<close>, and an \<^verbatim>\<open>AddressInfo\<close> is pushed whose fields
  are computed in the order of the object literal.
\<close>

fun collectAddressInfo ::
  "Libraries \<Rightarrow> IBlockchainDataSource \<Rightarrow> string list \<Rightarrow> Utxo list \<times> AddressInfo list
     \<Rightarrow> failure + Utxo list \<times> AddressInfo list" where
  "collectAddressInfo lib blockchainExplorer [] (clusterUtxos, clusterAddressInfo) =
     Inr (clusterUtxos, clusterAddressInfo)"
| "collectAddressInfo lib blockchainExplorer (clusterAddress # rest) (clusterUtxos, clusterAddressInfo) =
     (case getUtxos blockchainExplorer clusterAddress of
        Inl e \<Rightarrow> Inl (Thrown e)
      | Inr us \<Rightarrow>
          let clusterUtxos1 = clusterUtxos @ us;
              bal = coalesceValueQuantities lib (map value' us)
          in
          (case getPaymentCredential lib clusterAddress of
             Inl e \<Rightarrow> Inl (Thrown e)
           | Inr pc \<Rightarrow>
               (case getStakingCredential lib clusterAddress (getNetworkId blockchainExplorer) of
                  Inl e \<Rightarrow> Inl (Thrown e)
                | Inr sc \<Rightarrow>
                    collectAddressInfo lib blockchainExplorer rest
                      (clusterUtxos1,
                       clusterAddressInfo @
                         [\<lparr>addressAI = clusterAddress, balanceAI = bal, utxosAI = us,
                           paymentCredentialAI = pc, stakingCredentialAI = sc\<rparr>]))))"

text \<open>
  The loop over \<^verbatim>\<open>clusterRewardAccounts\<close> (lines 133 to 139): an account whose
  info is \<^verbatim>\<open>null\<close> is left out.
\<close>

fun collectRewardAccountInfo ::
  "IBlockchainDataSource \<Rightarrow> string list \<Rightarrow> RewardAccountInfo list
     \<Rightarrow> failure + RewardAccountInfo list" where
  "collectRewardAccountInfo blockchainExplorer [] clusterRewardAccountInfo =
     Inr clusterRewardAccountInfo"
| "collectRewardAccountInfo blockchainExplorer (rewardAccount # rest) clusterRewardAccountInfo =
     (case getRewardAccountInfo blockchainExplorer rewardAccount of
        Inl e \<Rightarrow> Inl (Thrown e)
      | Inr rewardAccountInfo \<Rightarrow>
          (case rewardAccountInfo of
             None \<Rightarrow> collectRewardAccountInfo blockchainExplorer rest clusterRewardAccountInfo
           | Some info \<Rightarrow>
               collectRewardAccountInfo blockchainExplorer rest (clusterRewardAccountInfo @ [info])))"

text \<open>
  \<^verbatim>\<open>Array.prototype.findIndex\<close>: the index of the first element that satisfies
  the predicate, \<open>-1\<close> when there is none.
\<close>

fun findIndexFrom :: "('a \<Rightarrow> bool) \<Rightarrow> int \<Rightarrow> 'a list \<Rightarrow> int" where
  "findIndexFrom p i [] = - 1"
| "findIndexFrom p i (x # xs) = (if p x then i else findIndexFrom p (i + 1) xs)"

definition findIndex :: "('a \<Rightarrow> bool) \<Rightarrow> 'a list \<Rightarrow> int" where
  "findIndex p self = findIndexFrom p 0 self"

text \<open>
  \<^verbatim>\<open>Array.prototype.filter\<close> with the three-argument callback
  \<^verbatim>\<open>(value, index, self)\<close>.
\<close>

definition filterIndexed :: "('a \<Rightarrow> int \<Rightarrow> 'a list \<Rightarrow> bool) \<Rightarrow> 'a list \<Rightarrow> 'a list" where
  "filterIndexed p self =
     map fst (filter (\<lambda>(v, i). p v i self) (zip self (map int [0..<length self])))"

text \<open>
  Lines 143 to 146: an entry of \<^verbatim>\<open>clusterUtxos\<close> is kept when it stands at the
  first index that holds its transaction hash and output index.
\<close>

definition uniqueUtxos :: "Utxo list \<Rightarrow> Utxo list" where
  "uniqueUtxos clusterUtxos =
     filterIndexed
       (\<lambda>v i self. i = findIndex (\<lambda>t. txHash t = txHash v \<and> index t = index v) self)
       clusterUtxos"

section \<open>discover\<close>

text \<open>
  \<^verbatim>\<open>ClusteredWallet.discover\<close>, first part (lines 77 to 115): the start
  notification, the frontier set to the seed alone, and the loop.
\<close>

definition frontierExpansion ::
  "IBlockchainDataSource \<Rightarrow> 's monitor option \<Rightarrow> string \<Rightarrow> 's \<Rightarrow> failure + discovery \<times> 's" where
  "frontierExpansion blockchainExplorer progressMonitor seedAddress s =
     (case notify progressMonitor (''Starting cluster discovery from seed '' @ seedAddress @ ''.'') s of
        Inl e \<Rightarrow> Inl e
      | Inr s1 \<Rightarrow>
          discoverLoop blockchainExplorer progressMonitor
            \<lparr>clusterAddresses = [], clusterRewardAccounts = [],
             addressToExplore = set_add seedAddress []\<rparr> s1)"

text \<open>
  Second part (lines 117 to 155): the address and reward-account details are fetched
  and the wallet is assembled.  The result carries the final state of the progress
  monitor.
\<close>

definition discover ::
  "Libraries \<Rightarrow> string \<Rightarrow> IBlockchainDataSource \<Rightarrow> 's monitor option \<Rightarrow> 's
     \<Rightarrow> failure + ClusteredWallet \<times> 's" where
  "discover lib seedAddress blockchainExplorer progressMonitor s =
     (case frontierExpansion blockchainExplorer progressMonitor seedAddress s of
        Inl e \<Rightarrow> Inl e
      | Inr (st, s2) \<Rightarrow>
          (case collectAddressInfo lib blockchainExplorer (clusterAddresses st) ([], []) of
             Inl e \<Rightarrow> Inl e
           | Inr (clusterUtxos, clusterAddressInfo) \<Rightarrow>
               (case collectRewardAccountInfo blockchainExplorer (clusterRewardAccounts st) [] of
                  Inl e \<Rightarrow> Inl e
                | Inr clusterRewardAccountInfo \<Rightarrow>
                    let us = uniqueUtxos clusterUtxos;
                        wallet =
                          \<lparr>p_utxos = us,
                           p_clusterAddresses = clusterAddressInfo,
                           p_clusterRewardAccounts = clusterRewardAccountInfo,
                           p_balance = coalesceValueQuantities lib (map value' us),
                           p_rewards =
                             foldl (\<lambda>acc rewardAccountInfo. acc + rewards rewardAccountInfo) 0
                               clusterRewardAccountInfo\<rparr>
                    in
                    (case notify progressMonitor ''Cluster discovery complete.'' s2 of
                       Inl e \<Rightarrow> Inl e
                     | Inr s3 \<Rightarrow> Inr (wallet, s3)))))"

section \<open>The Blockfrost data source\<close>

text \<open>
  The part of \<^verbatim>\<open>@blockfrost/blockfrost-js\<close> the class uses, as a parameter: each
  request resolves or rejects (not found, network failure, a bad project id).  The
  field \<^verbatim>\<open>unit\<close> of an amount is \<open>unit'\<close>, and the \<^verbatim>\<open>address\<close> fields carry a
  suffix.
\<close>

record BlockfrostAccount =
  withdrawable_amount :: string
  controlled_amount :: string
  pool_id :: "string option"

record BlockfrostAccountAddress =
  addressA :: string

record BlockfrostAmount =
  unit' :: string
  quantity :: string

record BlockfrostUtxo =
  addressB :: string
  tx_hash :: string
  output_index :: int
  amount :: "BlockfrostAmount list"

record BlockFrostAPI =
  accounts :: "string \<Rightarrow> exn + BlockfrostAccount"
  accountsAddresses :: "string \<Rightarrow> exn + BlockfrostAccountAddress list"
  addressesUtxos :: "string \<Rightarrow> exn + BlockfrostUtxo list"

text \<open>The object: its two private fields, set by the constructor.\<close>

record BlockfrostBlockchainDataSource =
  p_api :: BlockFrostAPI
  p_networkId :: int

definition newBlockfrostBlockchainDataSource ::
  "BlockFrostAPI \<Rightarrow> bool \<Rightarrow> BlockfrostBlockchainDataSource" where
  "newBlockfrostBlockchainDataSource api isTestnet =
     \<lparr>p_api = api, p_networkId = (if isTestnet then 0 else 1)\<rparr>"

text \<open>
  \<^verbatim>\<open>Array.prototype.map\<close> with a callback that may throw: the first exception
  ends the traversal.
\<close>

fun mapE :: "('a \<Rightarrow> exn + 'b) \<Rightarrow> 'a list \<Rightarrow> exn + 'b list" where
  "mapE f [] = Inr []"
| "mapE f (x # xs) =
     (case f x of
        Inl e \<Rightarrow> Inl e
      | Inr y \<Rightarrow> (case mapE f xs of Inl e \<Rightarrow> Inl e | Inr ys \<Rightarrow> Inr (y # ys)))"

text \<open>
  The callback of \<^verbatim>\<open>getUtxos\<close> (lines 104 to 118): the coins are the quantity of
  the entry of unit \<^verbatim>\<open>lovelace\<close> (reading \<^verbatim>\<open>quantity\<close> of \<^verbatim>\<open>undefined\<close> throws
  when there is none); the other entries make the asset map, \<^verbatim>\<open>new Map\<close> keeping the
  last quantity of a repeated unit.
\<close>

definition toAssetEntry :: "Libraries \<Rightarrow> BlockfrostAmount \<Rightarrow> exn + string \<times> int" where
  "toAssetEntry lib entry =
     (case AssetId lib (unit' entry) of
        None \<Rightarrow> Inl InvalidAssetId
      | Some assetId \<Rightarrow>
          (case BigInt lib (quantity entry) of
             None \<Rightarrow> Inl SyntaxError
           | Some q \<Rightarrow> Inr (assetId, q)))"

definition toUtxo :: "Libraries \<Rightarrow> BlockfrostUtxo \<Rightarrow> exn + Utxo" where
  "toUtxo lib utxo =
     (case find (\<lambda>entry. unit' entry = ''lovelace'') (amount utxo) of
        None \<Rightarrow> Inl (TypeError ''quantity'')
      | Some lovelace \<Rightarrow>
          (case BigInt lib (quantity lovelace) of
             None \<Rightarrow> Inl SyntaxError
           | Some c \<Rightarrow>
               (case mapE (toAssetEntry lib) (filter (\<lambda>entry. unit' entry \<noteq> ''lovelace'') (amount utxo)) of
                  Inl e \<Rightarrow> Inl e
                | Inr entries \<Rightarrow>
                    Inr \<lparr>txHash = tx_hash utxo, index = output_index utxo,
                         value' = \<lparr>coins = c, assets = foldl (\<lambda>m (k, v). map_set k v m) [] entries\<rparr>,
                         address' = addressB utxo\<rparr>)))"

text \<open>
  \<^verbatim>\<open>getUtxos\<close> (lines 100 to 119): no \<^verbatim>\<open>try\<close> stands around
  \<^verbatim>\<open>getPaymentCredential\<close> or the request, so what they throw comes out.
\<close>

definition Blockfrost_getUtxos ::
  "Libraries \<Rightarrow> BlockfrostBlockchainDataSource \<Rightarrow> string \<Rightarrow> exn + Utxo list" where
  "Blockfrost_getUtxos lib this address =
     (case getPaymentCredential lib address of
        Inl e \<Rightarrow> Inl e
      | Inr vkh \<Rightarrow>
          (case addressesUtxos (p_api this) vkh of
             Inl e \<Rightarrow> Inl e
           | Inr result \<Rightarrow> mapE (toUtxo lib) result))"

text \<open>
  \<^verbatim>\<open>getRewardAccounts\<close> (lines 51 to 58): the staking credentials of the addresses
  of the UTXOs, without the \<^verbatim>\<open>null\<close>s, passed through a \<^verbatim>\<open>Set\<close>.
\<close>

definition Blockfrost_getRewardAccounts ::
  "Libraries \<Rightarrow> BlockfrostBlockchainDataSource \<Rightarrow> string \<Rightarrow> exn + string list" where
  "Blockfrost_getRewardAccounts lib this address =
     (case Blockfrost_getUtxos lib this address of
        Inl e \<Rightarrow> Inl e
      | Inr us \<Rightarrow>
          (case mapE (\<lambda>utxo. getStakingCredential lib (address' utxo) (p_networkId this)) us of
             Inl e \<Rightarrow> Inl e
           | Inr stakingCredentials \<Rightarrow>
               let rewardAccounts = List.map_filter (\<lambda>c. c) stakingCredentials
               in Inr (insertRangeInSet rewardAccounts [])))"

text \<open>
  \<^verbatim>\<open>getRewardAccountInfo\<close> (lines 64 to 79): a rejected request gives \<^verbatim>\<open>null\<close>;
  the two \<^verbatim>\<open>BigInt\<close> conversions stand after the \<^verbatim>\<open>try\<close>.
\<close>

definition Blockfrost_getRewardAccountInfo ::
  "Libraries \<Rightarrow> BlockfrostBlockchainDataSource \<Rightarrow> string \<Rightarrow> exn + RewardAccountInfo option" where
  "Blockfrost_getRewardAccountInfo lib this rewardAccount =
     (case accounts (p_api this) rewardAccount of
        Inl e \<Rightarrow> Inr None
      | Inr account \<Rightarrow>
          (case BigInt lib (withdrawable_amount account) of
             None \<Rightarrow> Inl SyntaxError
           | Some r \<Rightarrow>
               (case BigInt lib (controlled_amount account) of
                  None \<Rightarrow> Inl SyntaxError
                | Some staked \<Rightarrow>
                    Inr (Some \<lparr>stakingCredential = rewardAccount, rewards = r,
                               stakedAmount = staked, poolId = pool_id account\<rparr>))))"

text \<open>\<^verbatim>\<open>getAddresses\<close> (lines 85 to 94): a rejected request gives the empty array.\<close>

definition Blockfrost_getAddresses ::
  "BlockfrostBlockchainDataSource \<Rightarrow> string \<Rightarrow> exn + string list" where
  "Blockfrost_getAddresses this stakeCredential =
     (case accountsAddresses (p_api this) stakeCredential of
        Inl e \<Rightarrow> Inr []
      | Inr addresses \<Rightarrow> Inr (map addressA addresses))"

text \<open>The object seen through the interface \<^verbatim>\<open>IBlockchainDataSource\<close>.\<close>

definition asDataSource :: "Libraries \<Rightarrow> BlockfrostBlockchainDataSource \<Rightarrow> IBlockchainDataSource" where
  "asDataSource lib this =
     \<lparr>getRewardAccounts = Blockfrost_getRewardAccounts lib this,
      getRewardAccountInfo = Blockfrost_getRewardAccountInfo lib this,
      getAddresses = Blockfrost_getAddresses this,
      getUtxos = Blockfrost_getUtxos lib this,
      getNetworkId = p_networkId this\<rparr>"

section \<open>Well-behaved collaborators\<close>

text \<open>
  A data source none of whose lookups rejects; a data source that lists, under its
  reward accounts, only addresses whose payment credential resolves; an optional
  monitor that never throws.
\<close>

definition neverRejects :: "IBlockchainDataSource \<Rightarrow> bool" where
  "neverRejects ds =
     ((\<forall>a. \<exists>r. getRewardAccounts ds a = Inr r) \<and>
      (\<forall>c. \<exists>r. getRewardAccountInfo ds c = Inr r) \<and>
      (\<forall>c. \<exists>r. getAddresses ds c = Inr r) \<and>
      (\<forall>a. \<exists>r. getUtxos ds a = Inr r))"

definition listsPaymentAddresses :: "Libraries \<Rightarrow> IBlockchainDataSource \<Rightarrow> bool" where
  "listsPaymentAddresses lib ds =
     (\<forall>c as a. getAddresses ds c = Inr as \<longrightarrow> a \<in> set as \<longrightarrow>
        (\<exists>p. getPaymentCredential lib a = Inr p))"

definition quiet :: "'s monitor option \<Rightarrow> bool" where
  "quiet pm = (case pm of None \<Rightarrow> True | Some update \<Rightarrow> neverThrows update)"

text \<open>
  What a reward account contributes to the wallet's reward-account list: its info when
  the data source has one, nothing when the info is absent.
\<close>

definition retainedInfo :: "IBlockchainDataSource \<Rightarrow> string \<Rightarrow> RewardAccountInfo list" where
  "retainedInfo ds rewardAccount =
     (case getRewardAccountInfo ds rewardAccount of Inr (Some info) \<Rightarrow> [info] | _ \<Rightarrow> [])"

text \<open>
  Two invariants of the frontier loop: the addresses listed under a recorded reward
  account are in the cluster, and every address of the cluster is listed under some
  reward account.
\<close>

definition linked :: "IBlockchainDataSource \<Rightarrow> discovery \<Rightarrow> bool" where
  "linked ds st =
     (\<forall>ra as. ra \<in> set (clusterRewardAccounts st) \<longrightarrow> getAddresses ds ra = Inr as \<longrightarrow>
        set as \<subseteq> set (clusterAddresses st))"

definition listed :: "IBlockchainDataSource \<Rightarrow> discovery \<Rightarrow> bool" where
  "listed ds st =
     (\<forall>a. a \<in> set (clusterAddresses st) \<longrightarrow> (\<exists>ra as. getAddresses ds ra = Inr as \<and> a \<in> set as))"

section \<open>Notions the claims are stated with\<close>



text \<open>
  The link the data source reveals: \<open>b\<close> is listed under a reward account of \<open>a\<close>.
  The addresses reachable from a seed are those of the reflexive-transitive closure.
\<close>

definition sharesCredential :: "IBlockchainDataSource \<Rightarrow> (string \<times> string) set" where
  "sharesCredential ds =
     {(a, b). \<exists>ras ra as. getRewardAccounts ds a = Inr ras \<and> ra \<in> set ras \<and>
                getAddresses ds ra = Inr as \<and> b \<in> set as}"

definition reachableFrom :: "IBlockchainDataSource \<Rightarrow> string \<Rightarrow> string set" where
  "reachableFrom ds seedAddress = {b. (seedAddress, b) \<in> (sharesCredential ds)\<^sup>*}"

text \<open>The addresses the data source lists under a reward account.\<close>

definition listedUnder :: "IBlockchainDataSource \<Rightarrow> string \<Rightarrow> string set" where
  "listedUnder ds rewardAccount =
     (case getAddresses ds rewardAccount of Inr addresses \<Rightarrow> set addresses | Inl e \<Rightarrow> {})"

text \<open>The addresses of the wallet a run returned, in order.\<close>

definition clusterOf :: "failure + ClusteredWallet \<times> 's \<Rightarrow> failure + string list" where
  "clusterOf result = map_sum id (\<lambda>(w, s). map addressAI (getAddressesW w)) result"

section \<open>Test doubles\<close>

text \<open>
  Concrete libraries and data sources, on which the theorems below are run.  The
  decoder knows eight texts: \<open>S\<close>, \<open>T\<close>, \<open>A\<close> and \<open>B\<close> are base addresses, \<open>U\<close> is
  an enterprise address with a key hash, \<open>X\<close> an enterprise address with a script
  hash, \<open>P\<close> a pointer address with a key hash, and \<open>R\<close> is a reward address,
  which has no view; any other text is no address.  The encoder writes the prefix, a
  \<open>1\<close> and the hash.
\<close>

definition keyCredential :: "string \<Rightarrow> Credential" where
  "keyCredential h = \<lparr>credentialType = KeyHash, hash = h\<rparr>"

definition baseOf :: "string \<Rightarrow> string \<Rightarrow> Address" where
  "baseOf p k =
     \<lparr>asEnterprise = None,
      asBase = Some \<lparr>basePaymentCredential = keyCredential p, baseStakeCredential = keyCredential k\<rparr>,
      asPointer = None\<rparr>"

definition enterpriseOf :: "string \<Rightarrow> Address" where
  "enterpriseOf p =
     \<lparr>asEnterprise = Some \<lparr>enterprisePaymentCredential = keyCredential p\<rparr>, asBase = None,
      asPointer = None\<rparr>"

definition scriptEnterpriseOf :: "string \<Rightarrow> Address" where
  "scriptEnterpriseOf h =
     \<lparr>asEnterprise = Some \<lparr>enterprisePaymentCredential = \<lparr>credentialType = ScriptHash, hash = h\<rparr>\<rparr>,
      asBase = None, asPointer = None\<rparr>"

definition pointerOf :: "string \<Rightarrow> Address" where
  "pointerOf p =
     \<lparr>asEnterprise = None, asBase = None,
      asPointer = Some \<lparr>pointerPaymentCredential = keyCredential p\<rparr>\<rparr>"

definition rewardAddress :: Address where
  "rewardAddress = \<lparr>asEnterprise = None, asBase = None, asPointer = None\<rparr>"

definition testLibraries :: Libraries where
  "testLibraries =
     \<lparr>fromBech32 =
        map_of [(''S'', baseOf ''aa'' ''k1''), (''T'', baseOf ''aa'' ''k2''),
                (''A'', baseOf ''cc'' ''ka''), (''B'', baseOf ''dd'' ''kb''),
                (''U'', enterpriseOf ''bb''), (''R'', rewardAddress),
                (''P'', pointerOf ''ee''), (''X'', scriptEnterpriseOf ''ff'')],
      hexToWords = map of_char,
      bech32_encode = (\<lambda>prefix words limit. prefix @ ''1'' @ map char_of words),
      rewardAddressBech32 = (\<lambda>networkId c. ''stake'' @ string_of_int networkId @ ''_'' @ hash c),
      coalesceValueQuantities = coalescePointwise,
      AssetId = Some,
      BigInt = map_of [(''0'', 0), (''400'', 400), (''600'', 600)]\<rparr>"

definition utxoOf :: "string \<Rightarrow> int \<Rightarrow> int \<Rightarrow> (string \<times> int) list \<Rightarrow> string \<Rightarrow> Utxo" where
  "utxoOf h i c m a = \<lparr>txHash = h, index = i, value' = \<lparr>coins = c, assets = m\<rparr>, address' = a\<rparr>"

text \<open>
  A data source with two reward accounts under the seed \<open>S\<close>.  \<open>T\<close> is listed under
  both, the info of \<open>K1\<close> is absent, and the output \<open>(tx1, 0)\<close> is reported both for
  \<open>S\<close> and for \<open>T\<close> (as the Blockfrost source does for two addresses of one payment
  credential).
\<close>

definition exampleSource :: IBlockchainDataSource where
  "exampleSource =
     \<lparr>getRewardAccounts = (\<lambda>a. if a = ''S'' then Inr [''K1'', ''K2''] else Inr []),
      getRewardAccountInfo =
        (\<lambda>r. if r = ''K2''
              then Inr (Some \<lparr>stakingCredential = ''K2'', rewards = 50, stakedAmount = 1000,
                               poolId = Some ''P1''\<rparr>)
              else Inr None),
      getAddresses =
        (\<lambda>r. if r = ''K1'' then Inr [''S'', ''T'']
              else if r = ''K2'' then Inr [''T'', ''U'']
              else Inr []),
      getUtxos =
        (\<lambda>a. if a = ''S''
              then Inr [utxoOf ''tx1'' 0 600 [(''gold'', 2)] ''S'', utxoOf ''tx2'' 0 100 [] ''S'']
              else if a = ''T''
              then Inr [utxoOf ''tx1'' 0 600 [(''gold'', 2)] ''S'',
                        utxoOf ''tx1'' 1 400 [(''gold'', 3), (''silver'', 1)] ''T'']
              else Inr []),
      getNetworkId = 0\<rparr>"

text \<open>Two progress monitors: one throws on every message, one keeps a log.\<close>

definition throwingMonitor :: "unit monitor" where
  "throwingMonitor message s = Inl (SinkError ''sink is down'')"

definition loggingMonitor :: "string list monitor" where
  "loggingMonitor message log = Inr (log @ [message])"

text \<open>
  Three more data sources, none with UTXOs of interest or reward-account infos.
  \<^item> \<open>chainSource\<close>: \<open>S\<close> has the reward account \<open>K1\<close>, which lists \<open>S\<close> and \<open>T\<close>;
    \<open>T\<close> has \<open>K2\<close>, which lists \<open>T\<close> and \<open>U\<close>.
  \<^item> \<open>cyclicSource\<close>: the reward account of \<open>A\<close> lists \<open>B\<close>, and the reward account
    of \<open>B\<close> lists \<open>A\<close>.
  \<^item> \<open>unstakedSource\<close>: no address has a reward account; \<open>U\<close>, an enterprise
    address, holds one output of 600 coins.
\<close>

definition noInfo :: "string \<Rightarrow> exn + RewardAccountInfo option" where
  "noInfo r = Inr None"

definition chainSource :: IBlockchainDataSource where
  "chainSource =
     \<lparr>getRewardAccounts =
        (\<lambda>a. if a = ''S'' then Inr [''K1''] else if a = ''T'' then Inr [''K2''] else Inr []),
      getRewardAccountInfo = noInfo,
      getAddresses =
        (\<lambda>r. if r = ''K1'' then Inr [''S'', ''T'']
              else if r = ''K2'' then Inr [''T'', ''U'']
              else Inr []),
      getUtxos = (\<lambda>a. Inr []),
      getNetworkId = 0\<rparr>"

definition cyclicSource :: IBlockchainDataSource where
  "cyclicSource =
     \<lparr>getRewardAccounts =
        (\<lambda>a. if a = ''A'' then Inr [''KA''] else if a = ''B'' then Inr [''KB''] else Inr []),
      getRewardAccountInfo = noInfo,
      getAddresses =
        (\<lambda>r. if r = ''KA'' then Inr [''B''] else if r = ''KB'' then Inr [''A''] else Inr []),
      getUtxos = (\<lambda>a. Inr []),
      getNetworkId = 0\<rparr>"

definition unstakedSource :: IBlockchainDataSource where
  "unstakedSource =
     \<lparr>getRewardAccounts = (\<lambda>a. Inr []),
      getRewardAccountInfo = noInfo,
      getAddresses = (\<lambda>r. Inr []),
      getUtxos = (\<lambda>a. if a = ''U'' then Inr [utxoOf ''tx9'' 0 600 [] ''U''] else Inr []),
      getNetworkId = 0\<rparr>"

text \<open>
  The scenario of the spec's section 8: \<open>S\<close> and \<open>T\<close> share the reward account
  \<open>K1\<close> (staked 1000, rewards 50, pool \<open>P1\<close>), \<open>S\<close> holds 600 coins and \<open>T\<close> 400.
\<close>

definition scenarioSource :: IBlockchainDataSource where
  "scenarioSource =
     \<lparr>getRewardAccounts = (\<lambda>a. if a = ''S'' \<or> a = ''T'' then Inr [''K1''] else Inr []),
      getRewardAccountInfo =
        (\<lambda>r. if r = ''K1''
              then Inr (Some \<lparr>stakingCredential = ''K1'', rewards = 50, stakedAmount = 1000,
                               poolId = Some ''P1''\<rparr>)
              else Inr None),
      getAddresses = (\<lambda>r. if r = ''K1'' then Inr [''S'', ''T''] else Inr []),
      getUtxos =
        (\<lambda>a. if a = ''S'' then Inr [utxoOf ''txs'' 0 600 [] ''S'']
              else if a = ''T'' then Inr [utxoOf ''txt'' 0 400 [] ''T'']
              else Inr []),
      getNetworkId = 0\<rparr>"

text \<open>
  A Blockfrost provider that knows the payment credential of \<open>S\<close> and answers every
  other request with "not found", and the data source built on it for the test
  network.
\<close>

definition testApi :: BlockFrostAPI where
  "testApi =
     \<lparr>accounts = (\<lambda>r. Inl (ProviderError ''404 Not Found'')),
      accountsAddresses = (\<lambda>r. Inl (ProviderError ''404 Not Found'')),
      addressesUtxos =
        (\<lambda>vkh. if vkh = ''addr_vkh1aa''
                then Inr [\<lparr>addressB = ''S'', tx_hash = ''tx1'', output_index = 0,
                           amount = [\<lparr>unit' = ''lovelace'', quantity = ''600''\<rparr>]\<rparr>]
                else Inl (ProviderError ''404 Not Found''))\<rparr>"

definition testBlockfrost :: BlockfrostBlockchainDataSource where
  "testBlockfrost = newBlockfrostBlockchainDataSource testApi True"

section \<open>Termination of the frontier loop\<close>

lemma set_set_add: "set (set_add v s) = insert v (set s)"
  by (auto simp: set_add_def)

lemma set_insertRangeInSet: "set (insertRangeInSet array s) = set s \<union> set array"
  unfolding insertRangeInSet_def
  by (induction array arbitrary: s) (auto simp: set_set_add)

lemma exploreRewardAccounts_pending:
  "exploreRewardAccounts ds pm ras st s = Inr (st', s') \<Longrightarrow> pending st' \<subseteq> pending st"
proof (induction ras arbitrary: st s)
  case Nil
  then show ?case by simp
next
  case (Cons ra ras)
  show ?case
  proof (cases "ra \<in> set (clusterRewardAccounts st)")
    case True
    with Cons show ?thesis by simp
  next
    case False
    from Cons.prems False obtain s1 addrs s2 where
      rec: "exploreRewardAccounts ds pm ras
              (st\<lparr>clusterRewardAccounts := set_add ra (clusterRewardAccounts st),
                  addressToExplore := insertRangeInSet addrs (addressToExplore st),
                  clusterAddresses := insertRangeInSet addrs (clusterAddresses st)\<rparr>) s2 = Inr (st', s')"
      by (auto simp: Let_def split: sum.splits)
    from Cons.IH [OF rec] show ?thesis
      by (auto simp: pending_def set_insertRangeInSet)
  qed
qed

termination discoverLoop
proof (relation "inv_image (finite_psubset <*lex*> measure length)
          (\<lambda>(ds, pm, st, s). (pending st, addressToExplore st))", goal_cases)
  case 1
  show ?case by (intro wf_inv_image wf_lex_prod wf_finite_psubset wf_measure)
next
  case (2 ds pm st s x remaining address st0)
  then have "pending st0 \<subseteq> pending st" and "length (addressToExplore st0) < length (addressToExplore st)"
    by (auto simp: popFromSet_def set_delete_def pending_def less_Suc_eq_le
             split: list.splits)
  then show ?case
    by (auto simp: finite_psubset_def pending_def)
next
  case (3 ds pm st s x remaining address st0 s1 rewardAccounts y st1 s2)
  from 3 have sub: "pending st1 \<subseteq> pending st0"
    using exploreRewardAccounts_pending by metis
  from 3 have "address \<in> pending st" and "address \<notin> pending st0"
    by (auto simp: popFromSet_def set_delete_def pending_def split: list.splits)
  moreover from 3 have "pending st0 \<subseteq> pending st"
    by (auto simp: popFromSet_def set_delete_def pending_def split: list.splits)
  ultimately have "pending st1 \<subset> pending st"
    using sub by blast
  then show ?case
    by (simp add: finite_psubset_def pending_def)
qed

text \<open>
  The defining equation of the loop rewrites the loop in terms of itself, so it is
  unfolded by hand where needed.
\<close>

declare discoverLoop.simps [simp del]

section \<open>Properties of the helpers\<close>

subsection \<open>Sets\<close>

lemma set_add_distinct: "distinct s \<Longrightarrow> distinct (set_add v s)"
  by (simp add: set_add_def)

lemma insertRangeInSet_distinct: "distinct s \<Longrightarrow> distinct (insertRangeInSet array s)"
  unfolding insertRangeInSet_def
  by (induction array arbitrary: s) (simp_all add: set_add_distinct)

subsection \<open>The first-occurrence filter\<close>

lemma zip_index_nth:
  assumes "(v, i) \<in> set (zip xs (map int [0..<length xs]))"
  shows "v = xs ! nat i"
proof -
  from assms obtain n where "n < length xs" "xs ! n = v" "map int [0..<length xs] ! n = i"
    by (auto simp: in_set_zip)
  then show ?thesis by auto
qed

lemma uniqueUtxos_distinct:
  "distinct (map (\<lambda>u. (txHash u, index u)) (uniqueUtxos clusterUtxos))"
proof -
  let ?ns = "map int [0..<length clusterUtxos]"
  let ?first = "\<lambda>v. findIndex (\<lambda>t. txHash t = txHash v \<and> index t = index v) clusterUtxos"
  let ?kept = "filter (\<lambda>(v, i). i = ?first v) (zip clusterUtxos ?ns)"
  have "distinct ?ns"
    by (simp add: distinct_map inj_on_def)
  then have d: "distinct ?kept"
    by (simp add: distinct_zipI2)
  have inj: "inj_on (\<lambda>p. (txHash (fst p), index (fst p))) (set ?kept)"
  proof (rule inj_onI)
    fix p q
    assume p: "p \<in> set ?kept" and q: "q \<in> set ?kept"
      and eq: "(txHash (fst p), index (fst p)) = (txHash (fst q), index (fst q))"
    obtain v i where pv: "p = (v, i)" by (cases p)
    obtain w j where qw: "q = (w, j)" by (cases q)
    from eq pv qw have "?first v = ?first w"
      by (simp add: findIndex_def)
    with p q pv qw have ij: "i = j" by simp
    from p pv have "v = clusterUtxos ! nat i"
      by (auto dest: zip_index_nth)
    moreover from q qw have "w = clusterUtxos ! nat j"
      by (auto dest: zip_index_nth)
    ultimately show "p = q" using ij pv qw by simp
  qed
  have "distinct (map (\<lambda>p. (txHash (fst p), index (fst p))) ?kept)"
    using d inj by (simp add: distinct_map)
  then show ?thesis
    by (simp add: uniqueUtxos_def filterIndexed_def comp_def)
qed

subsection \<open>Coalescing\<close>

lemma fst_in_keys: "(a, b) \<in> set m \<Longrightarrow> a \<in> fst ` set m"
  by force

lemma map_set_keys:
  "map fst (map_set k v m) = (if k \<in> fst ` set m then map fst m else map fst m @ [k])"
  by (induction m) (auto dest: fst_in_keys)

lemma map_set_distinct: "distinct (map fst m) \<Longrightarrow> distinct (map fst (map_set k v m))"
  by (simp add: map_set_keys)

lemma quantityOf_absent: "a \<notin> fst ` set m \<Longrightarrow> quantityOf m a = 0"
  by (induction m) (auto simp: quantityOf_def)

lemma quantityOf_Cons:
  "quantityOf (p # m) a = (if fst p = a then snd p else 0) + quantityOf m a"
  by (simp add: quantityOf_def)

lemma quantityOf_map_of:
  "distinct (map fst m) \<Longrightarrow> quantityOf m a = (case map_of m a of None \<Rightarrow> 0 | Some q \<Rightarrow> q)"
proof (induction m)
  case Nil
  show ?case by (simp add: quantityOf_def)
next
  case (Cons p m)
  then show ?case
    by (cases p) (auto simp: quantityOf_Cons quantityOf_absent dest: fst_in_keys split: option.splits)
qed

lemma quantityOf_map_set:
  "distinct (map fst m) \<Longrightarrow> quantityOf (map_set k v m) a = (if a = k then v else quantityOf m a)"
proof (induction m)
  case Nil
  show ?case by (simp add: quantityOf_def)
next
  case (Cons p m)
  then show ?case
    by (cases p) (auto simp: quantityOf_Cons quantityOf_absent dest: fst_in_keys)
qed

lemma addTokens_Nil: "addTokens r [] = r"
  by (simp add: addTokens_def)

lemma addTokens_Cons:
  "addTokens r ((k, q) # t) =
     addTokens (map_set k ((case map_of r k of None \<Rightarrow> 0 | Some n \<Rightarrow> n) + q) r) t"
  by (simp add: addTokens_def)

lemma addTokens_sum:
  "distinct (map fst r) \<Longrightarrow>
     distinct (map fst (addTokens r t)) \<and> quantityOf (addTokens r t) a = quantityOf r a + quantityOf t a"
proof (induction t arbitrary: r)
  case Nil
  show ?case using Nil by (simp add: addTokens_Nil quantityOf_def)
next
  case (Cons p t)
  obtain k q where p: "p = (k, q)" by (cases p)
  let ?r = "map_set k ((case map_of r k of None \<Rightarrow> 0 | Some n \<Rightarrow> n) + q) r"
  have d: "distinct (map fst ?r)"
    using Cons.prems by (rule map_set_distinct)
  have "quantityOf ?r a = quantityOf r a + (if k = a then q else 0)"
    using Cons.prems by (auto simp: quantityOf_map_set quantityOf_map_of)
  with Cons.IH [OF d] show ?case
    by (simp add: p addTokens_Cons quantityOf_Cons)
qed

lemma foldl_addTokens_sum:
  "distinct (map fst r) \<Longrightarrow>
     quantityOf (foldl addTokens r ms) a = quantityOf r a + (\<Sum>m\<leftarrow>ms. quantityOf m a)"
proof (induction ms arbitrary: r)
  case Nil
  show ?case by simp
next
  case (Cons m ms)
  from addTokens_sum [OF Cons.prems, of m a]
  have d: "distinct (map fst (addTokens r m))"
    and q: "quantityOf (addTokens r m) a = quantityOf r a + quantityOf m a"
    by simp_all
  from Cons.IH [OF d] q show ?case by simp
qed

lemma coalescePointwise_coins:
  "coins (coalescePointwise vs) = (\<Sum>v\<leftarrow>vs. coins v)"
  by (simp add: coalescePointwise_def)

lemma coalescePointwise_assets:
  "quantityOf (assets (coalescePointwise vs)) a = (\<Sum>v\<leftarrow>vs. quantityOf (assets v) a)"
  using foldl_addTokens_sum [of "[]" "map assets vs" a]
  by (simp add: coalescePointwise_def coalesceTokenMaps_def quantityOf_def comp_def)

lemma coalescePointwise_pointwise: "coalescesPointwise coalescePointwise"
  by (simp add: coalescesPointwise_def coalescePointwise_coins coalescePointwise_assets)

lemma testLibraries_coalesce: "coalesceValueQuantities testLibraries = coalescePointwise"
  by (simp add: testLibraries_def)

lemma foldl_rewards:
  "foldl (\<lambda>acc info. acc + rewards info) a infos = a + (\<Sum>info\<leftarrow>infos. rewards info)"
  by (induction infos arbitrary: a) auto

subsection \<open>What a returned wallet is made of\<close>

lemma discover_wallet:
  assumes "discover lib seed ds pm s = Inr (w, s')"
  shows "\<exists>clusterUtxos. getUTXOs w = uniqueUtxos clusterUtxos \<and>
           getBalance w = coalesceValueQuantities lib (map value' (getUTXOs w)) \<and>
           getRewards w = (\<Sum>info\<leftarrow>getRewardAccountsW w. rewards info)"
  using assms
  by (auto simp: discover_def Let_def getUTXOs_def getBalance_def getRewards_def
      getRewardAccountsW_def foldl_rewards split: sum.splits prod.splits)

subsection \<open>The run on the example source\<close>

lemma example_run:
  "map_sum id (\<lambda>(w, s). (map (\<lambda>u. (txHash u, index u)) (getUTXOs w), getBalance w))
     (discover testLibraries ''S'' exampleSource None ())
   = Inr ([(''tx1'', 0), (''tx2'', 0), (''tx1'', 1)],
          \<lparr>coins = 1100, assets = [(''gold'', 5), (''silver'', 1)]\<rparr>)"
  by code_simp

lemma example_returns: "\<not> isl (discover testLibraries ''S'' exampleSource None ())"
  by code_simp

subsection \<open>No step goes on with an undefined address\<close>

lemma notify_not_undefined [simp]: "notify pm m s \<noteq> Inl UndefinedAddress"
  by (auto simp: notify_def split: option.splits sum.splits)

lemma exploreRewardAccounts_not_undefined [simp]:
  "exploreRewardAccounts ds pm ras st s \<noteq> Inl UndefinedAddress"
proof (induction ras arbitrary: st s)
  case Nil
  show ?case by simp
next
  case (Cons ra ras)
  show ?case
    using Cons.IH by (auto simp: Let_def split: sum.splits)
qed

lemma popFromSet_Cons: "popFromSet (a # as) = (Some a, removeAll a as)"
  by (simp add: popFromSet_def set_delete_def)

lemma discoverLoop_not_undefined [simp]:
  "discoverLoop ds pm st s \<noteq> Inl UndefinedAddress"
proof (induction ds pm st s rule: discoverLoop.induct)
  case (1 ds pm st s)
  show ?case
  proof (cases "addressToExplore st")
    case Nil
    then show ?thesis by (subst discoverLoop.simps) simp
  next
    case (Cons a as)
    show ?thesis
      apply (subst discoverLoop.simps)
      using 1 Cons
      apply (auto simp: Let_def popFromSet_Cons split: sum.splits prod.splits)
      done
  qed
qed

lemma frontierExpansion_not_undefined [simp]:
  "frontierExpansion ds pm seed s \<noteq> Inl UndefinedAddress"
  by (auto simp: frontierExpansion_def split: sum.splits)

lemma collectAddressInfo_not_undefined [simp]:
  "collectAddressInfo lib ds as acc \<noteq> Inl UndefinedAddress"
proof (induction as arbitrary: acc)
  case Nil
  show ?case by (cases acc) simp
next
  case (Cons a as)
  show ?case
    using Cons.IH by (cases acc) (auto simp: Let_def split: sum.splits)
qed

lemma collectRewardAccountInfo_not_undefined [simp]:
  "collectRewardAccountInfo ds ras acc \<noteq> Inl UndefinedAddress"
  by (induction ras arbitrary: acc) (auto split: sum.splits option.splits)

subsection \<open>One turn of the frontier loop\<close>

lemma discoverLoop_Nil:
  "addressToExplore st = [] \<Longrightarrow> discoverLoop ds pm st s = Inr (st, s)"
  by (subst discoverLoop.simps) simp

lemma discoverLoop_skip:
  "addressToExplore st = a # as \<Longrightarrow> a \<in> set (clusterAddresses st) \<Longrightarrow>
     discoverLoop ds pm st s = discoverLoop ds pm (st\<lparr>addressToExplore := removeAll a as\<rparr>) s"
  by (subst discoverLoop.simps) (simp add: popFromSet_Cons)

lemma discoverLoop_expand:
  "addressToExplore st = a # as \<Longrightarrow> a \<notin> set (clusterAddresses st) \<Longrightarrow>
     discoverLoop ds pm st s =
       (case notify pm (''Getting reward accounts for '' @ a @ ''.'') s of
          Inl e \<Rightarrow> Inl e
        | Inr s1 \<Rightarrow>
            (case getRewardAccounts ds a of
               Inl e \<Rightarrow> Inl (Thrown e)
             | Inr ras \<Rightarrow>
                 (case exploreRewardAccounts ds pm ras (st\<lparr>addressToExplore := removeAll a as\<rparr>) s1 of
                    Inl e \<Rightarrow> Inl e
                  | Inr (st1, s2) \<Rightarrow>
                      if addressToExplore st1 \<noteq> [] then discoverLoop ds pm st1 s2 else Inr (st1, s2))))"
  by (subst discoverLoop.simps) (auto simp: popFromSet_Cons Let_def split: sum.splits)

subsection \<open>A monitor that never throws changes nothing\<close>

lemma notify_None [simp]: "notify None m u = Inr u"
  by (simp add: notify_def)

lemma notify_quiet:
  assumes "neverThrows update"
  shows "\<exists>s'. notify (Some update) m s = Inr s'"
proof -
  from assms obtain s' where "update m s = Inr s'"
    unfolding neverThrows_def by blast
  then show ?thesis by (simp add: notify_def)
qed

lemma exploreRewardAccounts_monitor:
  assumes quiet: "neverThrows update"
  shows "map_sum id fst (exploreRewardAccounts ds (Some update) ras st s)
       = map_sum id fst (exploreRewardAccounts ds None ras st u)"
proof (induction ras arbitrary: st s u)
  case Nil
  show ?case by simp
next
  case (Cons ra ras)
  show ?case
  proof (cases "ra \<in> set (clusterRewardAccounts st)")
    case True
    then show ?thesis using Cons.IH by simp
  next
    case False
    obtain s1 where s1: "notify (Some update) (''Searching '' @ ra @ '' for new addresses...'') s = Inr s1"
      using notify_quiet [OF quiet] by blast
    show ?thesis
    proof (cases "getAddresses ds ra")
      case (Inl e)
      with False s1 show ?thesis by (simp add: Let_def)
    next
      case (Inr addrs)
      let ?n = "int (length (insertRangeInSet addrs (clusterAddresses st))) - int (length (clusterAddresses st))"
      obtain s2 where s2: "notify (Some update) (''Found '' @ string_of_int ?n @ '' new addresses.'') s1 = Inr s2"
        using notify_quiet [OF quiet] by blast
      from False s1 s2 Inr show ?thesis
        using Cons.IH by (simp add: Let_def)
    qed
  qed
qed

lemma discoverLoop_monitor:
  assumes quiet: "neverThrows update"
  shows "map_sum id fst (discoverLoop ds (Some update) st s)
       = map_sum id fst (discoverLoop ds None st u)"
proof (induction ds "Some update" st s arbitrary: u rule: discoverLoop.induct)
  case (1 ds st s)
  show ?case
  proof (cases "addressToExplore st")
    case Nil
    then show ?thesis by (simp add: discoverLoop_Nil)
  next
    case (Cons a as)
    let ?st0 = "st\<lparr>addressToExplore := removeAll a as\<rparr>"
    have pop: "popFromSet (addressToExplore st) = (Some a, removeAll a as)"
      using Cons by (simp add: popFromSet_Cons)
    show ?thesis
    proof (cases "a \<in> set (clusterAddresses st)")
      case True
      have "map_sum id fst (discoverLoop ds (Some update) ?st0 s) = map_sum id fst (discoverLoop ds None ?st0 u)"
        using Cons True pop by (intro "1.hyps"(1)) auto
      then show ?thesis
        using Cons True by (simp add: discoverLoop_skip)
    next
      case False
      obtain s1 where s1: "notify (Some update) (''Getting reward accounts for '' @ a @ ''.'') s = Inr s1"
        using notify_quiet [OF quiet] by blast
      show ?thesis
      proof (cases "getRewardAccounts ds a")
        case (Inl e)
        with Cons False s1 show ?thesis by (simp add: discoverLoop_expand)
      next
        case ras: (Inr ras)
        note same = exploreRewardAccounts_monitor [OF quiet, of ds ras ?st0 s1 u]
        show ?thesis
        proof (cases "exploreRewardAccounts ds (Some update) ras ?st0 s1")
          case (Inl e)
          with same have "exploreRewardAccounts ds None ras ?st0 u = Inl e"
            by (cases "exploreRewardAccounts ds None ras ?st0 u") auto
          with Inl Cons False s1 ras show ?thesis by (simp add: discoverLoop_expand)
        next
          case (Inr r)
          obtain st1 s2 where r: "r = (st1, s2)" by (cases r)
          with same Inr obtain u2 where none: "exploreRewardAccounts ds None ras ?st0 u = Inr (st1, u2)"
            by (cases "exploreRewardAccounts ds None ras ?st0 u") auto
          show ?thesis
          proof (cases "addressToExplore st1 = []")
            case True
            with Inr r none Cons False s1 ras show ?thesis
              by (simp add: discoverLoop_expand)
          next
            case ne: False
            have "map_sum id fst (discoverLoop ds (Some update) st1 s2) = map_sum id fst (discoverLoop ds None st1 u2)"
              using Cons False pop s1 ras Inr r ne
              by (intro "1.hyps"(2)) auto
            with Inr r none Cons False s1 ras ne show ?thesis
              by (simp add: discoverLoop_expand)
          qed
        qed
      qed
    qed
  qed
qed

lemma frontierExpansion_monitor:
  assumes quiet: "neverThrows update"
  shows "map_sum id fst (frontierExpansion ds (Some update) seed s)
       = map_sum id fst (frontierExpansion ds None seed u)"
proof -
  obtain s1 where "notify (Some update) (''Starting cluster discovery from seed '' @ seed @ ''.'') s = Inr s1"
    using notify_quiet [OF quiet] by blast
  then show ?thesis
    using discoverLoop_monitor [OF quiet]
    by (simp add: frontierExpansion_def)
qed

lemma loggingMonitor_quiet: "neverThrows loggingMonitor"
  by (simp add: neverThrows_def loggingMonitor_def)

lemma example_log:
  "map_sum id snd (discover testLibraries ''S'' exampleSource (Some loggingMonitor) [])
   = Inr [''Starting cluster discovery from seed S.'',
          ''Getting reward accounts for S.'',
          ''Searching K1 for new addresses...'', ''Found 2 new addresses.'',
          ''Searching K2 for new addresses...'', ''Found 1 new addresses.'',
          ''Cluster discovery complete.'']"
  by code_simp

subsection \<open>Invariants of the frontier loop\<close>

lemma exploreRewardAccounts_inv:
  "exploreRewardAccounts ds pm ras st s = Inr (st', s') \<Longrightarrow> linked ds st \<Longrightarrow> listed ds st \<Longrightarrow>
     linked ds st' \<and> listed ds st'"
proof (induction ras arbitrary: st s)
  case Nil
  then show ?case by simp
next
  case (Cons ra ras)
  show ?case
  proof (cases "ra \<in> set (clusterRewardAccounts st)")
    case True
    with Cons show ?thesis by simp
  next
    case False
    from Cons.prems(1) False obtain s1 addrs s2 where
      addrs: "getAddresses ds ra = Inr addrs" and
      rec: "exploreRewardAccounts ds pm ras
              (st\<lparr>clusterRewardAccounts := set_add ra (clusterRewardAccounts st),
                  addressToExplore := insertRangeInSet addrs (addressToExplore st),
                  clusterAddresses := insertRangeInSet addrs (clusterAddresses st)\<rparr>) s2 = Inr (st', s')"
      by (auto simp: Let_def split: sum.splits)
    let ?st3 = "st\<lparr>clusterRewardAccounts := set_add ra (clusterRewardAccounts st),
                  addressToExplore := insertRangeInSet addrs (addressToExplore st),
                  clusterAddresses := insertRangeInSet addrs (clusterAddresses st)\<rparr>"
    have "linked ds ?st3"
      using Cons.prems(2) addrs
      by (auto simp: linked_def set_set_add set_insertRangeInSet)
    moreover have "listed ds ?st3"
      using Cons.prems(3) addrs
      by (auto simp: listed_def set_insertRangeInSet)
    ultimately show ?thesis
      using Cons.IH [OF rec] by simp
  qed
qed

lemma discoverLoop_inv:
  "discoverLoop ds pm st s = Inr (st', s') \<Longrightarrow> linked ds st \<Longrightarrow> listed ds st \<Longrightarrow>
     linked ds st' \<and> listed ds st'"
proof (induction ds pm st s rule: discoverLoop.induct)
  case (1 ds pm st s)
  show ?case
  proof (cases "addressToExplore st")
    case Nil
    with "1.prems" show ?thesis by (simp add: discoverLoop_Nil)
  next
    case (Cons a as)
    let ?st0 = "st\<lparr>addressToExplore := removeAll a as\<rparr>"
    have pop: "popFromSet (addressToExplore st) = (Some a, removeAll a as)"
      using Cons by (simp add: popFromSet_Cons)
    have inv0: "linked ds ?st0" "listed ds ?st0"
      using "1.prems"(2,3) by (simp_all add: linked_def listed_def)
    show ?thesis
    proof (cases "a \<in> set (clusterAddresses st)")
      case True
      with "1.prems"(1) Cons have run: "discoverLoop ds pm ?st0 s = Inr (st', s')"
        by (simp add: discoverLoop_skip)
      show ?thesis
        using Cons True pop run inv0 by (intro "1.IH"(1)) auto
    next
      case False
      from "1.prems"(1) Cons False obtain s1 ras st1 s2 where
        s1: "notify pm (''Getting reward accounts for '' @ a @ ''.'') s = Inr s1" and
        ras: "getRewardAccounts ds a = Inr ras" and
        ex: "exploreRewardAccounts ds pm ras ?st0 s1 = Inr (st1, s2)" and
        rest: "(if addressToExplore st1 \<noteq> [] then discoverLoop ds pm st1 s2 else Inr (st1, s2)) = Inr (st', s')"
        by (auto simp: discoverLoop_expand split: sum.splits)
      from exploreRewardAccounts_inv [OF ex inv0] have inv1: "linked ds st1" "listed ds st1"
        by simp_all
      show ?thesis
      proof (cases "addressToExplore st1 = []")
        case True
        with rest inv1 show ?thesis by simp
      next
        case ne: False
        with rest have run: "discoverLoop ds pm st1 s2 = Inr (st', s')" by simp
        show ?thesis
          using Cons False pop s1 ras ex ne run inv1 by (intro "1.IH"(2)) auto
      qed
    qed
  qed
qed

lemma frontierExpansion_inv:
  assumes "frontierExpansion ds pm seed s = Inr (st, s')"
  shows "linked ds st \<and> listed ds st"
proof -
  let ?init = "\<lparr>clusterAddresses = [], clusterRewardAccounts = [], addressToExplore = set_add seed []\<rparr>"
  from assms obtain s1 where "discoverLoop ds pm ?init s1 = Inr (st, s')"
    by (auto simp: frontierExpansion_def split: sum.splits)
  moreover have "linked ds ?init" "listed ds ?init"
    by (simp_all add: linked_def listed_def)
  ultimately show ?thesis
    by (rule discoverLoop_inv)
qed

lemma collectAddressInfo_addresses:
  "collectAddressInfo lib ds as acc = Inr (us, infos) \<Longrightarrow>
     map addressAI infos = map addressAI (snd acc) @ as"
proof (induction as arbitrary: acc)
  case Nil
  then show ?case by (cases acc) simp
next
  case (Cons a as)
  obtain us0 infos0 where acc: "acc = (us0, infos0)" by (cases acc)
  from Cons.prems acc obtain us1 i where
    rec: "collectAddressInfo lib ds as (us1, infos0 @ [i]) = Inr (us, infos)" and i: "addressAI i = a"
    by (auto simp: Let_def split: sum.splits)
  from Cons.IH [OF rec] i acc show ?case by simp
qed

lemma collectRewardAccountInfo_retained:
  "collectRewardAccountInfo ds ras acc = Inr infos \<Longrightarrow>
     infos = acc @ concat (map (retainedInfo ds) ras)"
proof (induction ras arbitrary: acc)
  case Nil
  then show ?case by simp
next
  case (Cons ra ras)
  show ?case
  proof (cases "getRewardAccountInfo ds ra")
    case (Inl e)
    with Cons.prems show ?thesis by simp
  next
    case (Inr i)
    show ?thesis
    proof (cases i)
      case None
      with Inr Cons.prems have "collectRewardAccountInfo ds ras acc = Inr infos" by simp
      from Cons.IH [OF this] None Inr show ?thesis
        by (simp add: retainedInfo_def [of ds ra])
    next
      case (Some info)
      with Inr Cons.prems have "collectRewardAccountInfo ds ras (acc @ [info]) = Inr infos" by simp
      from Cons.IH [OF this] Some Inr show ?thesis
        by (simp add: retainedInfo_def [of ds ra])
    qed
  qed
qed

lemma notify_returns: "quiet pm \<Longrightarrow> \<exists>s'. notify pm m s = Inr s'"
  by (cases pm) (auto simp: quiet_def notify_quiet)

lemma exploreRewardAccounts_returns:
  assumes "neverRejects ds" "quiet pm"
  shows "\<exists>r. exploreRewardAccounts ds pm ras st s = Inr r"
proof (induction ras arbitrary: st s)
  case Nil
  show ?case by simp
next
  case (Cons ra ras)
  show ?case
  proof (cases "ra \<in> set (clusterRewardAccounts st)")
    case True
    then show ?thesis using Cons.IH by simp
  next
    case False
    obtain s1 where s1: "notify pm (''Searching '' @ ra @ '' for new addresses...'') s = Inr s1"
      using notify_returns [OF assms(2)] by blast
    obtain addrs where addrs: "getAddresses ds ra = Inr addrs"
      using assms(1) unfolding neverRejects_def by blast
    let ?n = "int (length (insertRangeInSet addrs (clusterAddresses st))) - int (length (clusterAddresses st))"
    obtain s2 where s2: "notify pm (''Found '' @ string_of_int ?n @ '' new addresses.'') s1 = Inr s2"
      using notify_returns [OF assms(2)] by blast
    from False s1 addrs s2 show ?thesis
      using Cons.IH by (simp add: Let_def)
  qed
qed

lemma discoverLoop_returns:
  assumes "neverRejects ds" "quiet pm"
  shows "\<exists>r. discoverLoop ds pm st s = Inr r"
  using assms
proof (induction ds pm st s rule: discoverLoop.induct)
  case (1 ds pm st s)
  show ?case
  proof (cases "addressToExplore st")
    case Nil
    then show ?thesis by (simp add: discoverLoop_Nil)
  next
    case (Cons a as)
    let ?st0 = "st\<lparr>addressToExplore := removeAll a as\<rparr>"
    have pop: "popFromSet (addressToExplore st) = (Some a, removeAll a as)"
      using Cons by (simp add: popFromSet_Cons)
    show ?thesis
    proof (cases "a \<in> set (clusterAddresses st)")
      case True
      have "\<exists>r. discoverLoop ds pm ?st0 s = Inr r"
        using Cons True pop "1.prems" by (intro "1.IH"(1)) auto
      then show ?thesis using Cons True by (simp add: discoverLoop_skip)
    next
      case False
      obtain s1 where s1: "notify pm (''Getting reward accounts for '' @ a @ ''.'') s = Inr s1"
        using notify_returns [OF "1.prems"(2)] by blast
      obtain ras where ras: "getRewardAccounts ds a = Inr ras"
        using "1.prems"(1) unfolding neverRejects_def by blast
      obtain st1 s2 where ex: "exploreRewardAccounts ds pm ras ?st0 s1 = Inr (st1, s2)"
        using exploreRewardAccounts_returns [OF "1.prems", of ras ?st0 s1] by auto
      show ?thesis
      proof (cases "addressToExplore st1 = []")
        case True
        with Cons False s1 ras ex show ?thesis by (simp add: discoverLoop_expand)
      next
        case ne: False
        have "\<exists>r. discoverLoop ds pm st1 s2 = Inr r"
          using Cons False pop s1 ras ex ne "1.prems" by (intro "1.IH"(2)) auto
        with Cons False s1 ras ex ne show ?thesis by (simp add: discoverLoop_expand)
      qed
    qed
  qed
qed

lemma getStakingCredential_returns:
  "getPaymentCredential lib a = Inr p \<Longrightarrow> \<exists>c. getStakingCredential lib a n = Inr c"
  by (auto simp: getPaymentCredential_def getStakingCredential_def Let_def split: option.splits)

lemma collectAddressInfo_returns:
  assumes "neverRejects ds"
    and "\<And>a. a \<in> set as \<Longrightarrow> \<exists>p. getPaymentCredential lib a = Inr p"
  shows "\<exists>r. collectAddressInfo lib ds as acc = Inr r"
  using assms(2)
proof (induction as arbitrary: acc)
  case Nil
  show ?case by (cases acc) simp
next
  case (Cons a as)
  obtain us0 infos0 where acc: "acc = (us0, infos0)" by (cases acc)
  obtain us where us: "getUtxos ds a = Inr us"
    using assms(1) unfolding neverRejects_def by blast
  obtain p where p: "getPaymentCredential lib a = Inr p"
    using Cons.prems by auto
  obtain c where c: "getStakingCredential lib a (getNetworkId ds) = Inr c"
    using getStakingCredential_returns [OF p] by blast
  have "\<exists>r. collectAddressInfo lib ds as
          (us0 @ us, infos0 @ [\<lparr>addressAI = a, balanceAI = coalesceValueQuantities lib (map value' us),
             utxosAI = us, paymentCredentialAI = p, stakingCredentialAI = c\<rparr>]) = Inr r"
    using Cons.prems by (intro Cons.IH) auto
  with acc us p c show ?case by (simp add: Let_def)
qed

lemma collectRewardAccountInfo_returns:
  assumes "neverRejects ds"
  shows "\<exists>r. collectRewardAccountInfo ds ras acc = Inr r"
proof (induction ras arbitrary: acc)
  case Nil
  show ?case by simp
next
  case (Cons ra ras)
  obtain i where "getRewardAccountInfo ds ra = Inr i"
    using assms unfolding neverRejects_def by blast
  then show ?case using Cons.IH by (cases i) auto
qed


lemma discover_reward_accounts:
  assumes run: "discover lib seed ds pm s = Inr (wallet, s')"
  shows "\<exists>st s2. frontierExpansion ds pm seed s = Inr (st, s2) \<and>
           getRewardAccountsW wallet = concat (map (retainedInfo ds) (clusterRewardAccounts st)) \<and>
           map addressAI (getAddressesW wallet) = clusterAddresses st"
proof -
  from run obtain st s2 us infos rinfos where
    fe: "frontierExpansion ds pm seed s = Inr (st, s2)" and
    ca: "collectAddressInfo lib ds (clusterAddresses st) ([], []) = Inr (us, infos)" and
    cr: "collectRewardAccountInfo ds (clusterRewardAccounts st) [] = Inr rinfos" and
    w: "getRewardAccountsW wallet = rinfos" "getAddressesW wallet = infos"
    by (auto simp: discover_def Let_def getRewardAccountsW_def getAddressesW_def
        split: sum.splits prod.splits)
  from collectAddressInfo_addresses [OF ca] have "map addressAI infos = clusterAddresses st"
    by simp
  moreover from collectRewardAccountInfo_retained [OF cr]
  have "rinfos = concat (map (retainedInfo ds) (clusterRewardAccounts st))"
    by simp
  ultimately show ?thesis
    using fe w by simp
qed

lemma discover_returns:
  assumes nr: "neverRejects ds" and lp: "listsPaymentAddresses lib ds" and q: "quiet pm"
  shows "\<exists>wallet s'. discover lib seed ds pm s = Inr (wallet, s')"
proof -
  obtain s1 where s1: "notify pm (''Starting cluster discovery from seed '' @ seed @ ''.'') s = Inr s1"
    using notify_returns [OF q] by blast
  obtain st s2 where loop: "discoverLoop ds pm
      \<lparr>clusterAddresses = [], clusterRewardAccounts = [], addressToExplore = set_add seed []\<rparr> s1 = Inr (st, s2)"
    using discoverLoop_returns [OF nr q] by (metis surj_pair)
  from s1 loop have fe: "frontierExpansion ds pm seed s = Inr (st, s2)"
    by (simp add: frontierExpansion_def)
  from frontierExpansion_inv [OF fe] have "listed ds st" by simp
  with lp have "\<And>a. a \<in> set (clusterAddresses st) \<Longrightarrow> \<exists>p. getPaymentCredential lib a = Inr p"
    unfolding listed_def listsPaymentAddresses_def by blast
  from collectAddressInfo_returns [OF nr this] obtain us infos where
    ca: "collectAddressInfo lib ds (clusterAddresses st) ([], []) = Inr (us, infos)"
    by (metis surj_pair)
  obtain rinfos where cr: "collectRewardAccountInfo ds (clusterRewardAccounts st) [] = Inr rinfos"
    using collectRewardAccountInfo_returns [OF nr] by blast
  obtain s3 where s3: "notify pm ''Cluster discovery complete.'' s2 = Inr s3"
    using notify_returns [OF q] by blast
  from fe ca cr s3 show ?thesis
    by (simp add: discover_def Let_def)
qed

lemma example_frontier:
  "frontierExpansion exampleSource None ''S'' ()
   = Inr (\<lparr>clusterAddresses = [''S'', ''T'', ''U''], clusterRewardAccounts = [''K1'', ''K2''],
           addressToExplore = []\<rparr>, ())"
  by code_simp

lemma exampleSource_neverRejects: "neverRejects exampleSource"
  by (simp add: neverRejects_def exampleSource_def)

lemma exampleSource_lists: "listsPaymentAddresses testLibraries exampleSource"
  by (auto simp: listsPaymentAddresses_def exampleSource_def getPaymentCredential_def
      testLibraries_def baseOf_def enterpriseOf_def Let_def split: if_splits)

subsection \<open>The frontier loop expands the seed alone\<close>

lemma exploreRewardAccounts_sets:
  "exploreRewardAccounts ds pm ras st s = Inr (st', s') \<Longrightarrow>
     set (clusterRewardAccounts st') = set (clusterRewardAccounts st) \<union> set ras \<and>
     set (clusterAddresses st')
       = set (clusterAddresses st) \<union> (\<Union>ra \<in> set ras - set (clusterRewardAccounts st). listedUnder ds ra)"
proof (induction ras arbitrary: st s)
  case Nil
  then show ?case by simp
next
  case (Cons ra ras)
  show ?case
  proof (cases "ra \<in> set (clusterRewardAccounts st)")
    case True
    with Cons.prems have "exploreRewardAccounts ds pm ras st s = Inr (st', s')" by simp
    from Cons.IH [OF this] True show ?thesis by auto
  next
    case False
    from Cons.prems False obtain s1 addrs s2 where
      addrs: "getAddresses ds ra = Inr addrs" and
      rec: "exploreRewardAccounts ds pm ras
              (st\<lparr>clusterRewardAccounts := set_add ra (clusterRewardAccounts st),
                  addressToExplore := insertRangeInSet addrs (addressToExplore st),
                  clusterAddresses := insertRangeInSet addrs (clusterAddresses st)\<rparr>) s2 = Inr (st', s')"
      by (auto simp: Let_def split: sum.splits)
    from addrs have l: "listedUnder ds ra = set addrs"
      by (simp add: listedUnder_def)
    from Cons.IH [OF rec] have
      r: "set (clusterRewardAccounts st') = insert ra (set (clusterRewardAccounts st)) \<union> set ras" and
      a: "set (clusterAddresses st') = set (clusterAddresses st) \<union> set addrs
            \<union> (\<Union>ra' \<in> set ras - insert ra (set (clusterRewardAccounts st)). listedUnder ds ra')"
      by (simp_all add: set_set_add set_insertRangeInSet)
    from r have "set (clusterRewardAccounts st') = set (clusterRewardAccounts st) \<union> set (ra # ras)"
      by auto
    moreover have "set (clusterAddresses st')
       = set (clusterAddresses st) \<union> (\<Union>ra' \<in> set (ra # ras) - set (clusterRewardAccounts st). listedUnder ds ra')"
      using a l False by auto
    ultimately show ?thesis by simp
  qed
qed

lemma discoverLoop_drain:
  "pending st = {} \<Longrightarrow> discoverLoop ds pm st s = Inr (st\<lparr>addressToExplore := []\<rparr>, s)"
proof (induction "length (addressToExplore st)" arbitrary: st rule: less_induct)
  case less
  show ?case
  proof (cases "addressToExplore st")
    case Nil
    then show ?thesis by (simp add: discoverLoop_Nil)
  next
    case (Cons a as)
    let ?st0 = "st\<lparr>addressToExplore := removeAll a as\<rparr>"
    from less.prems Cons have a: "a \<in> set (clusterAddresses st)"
      by (auto simp: pending_def)
    have shorter: "length (addressToExplore ?st0) < length (addressToExplore st)"
      using Cons by (simp add: less_Suc_eq_le)
    have "pending ?st0 = {}"
      using less.prems Cons by (auto simp: pending_def)
    from less.hyps [OF shorter this] have "discoverLoop ds pm ?st0 s = Inr (st\<lparr>addressToExplore := []\<rparr>, s)"
      by simp
    with Cons a show ?thesis by (simp add: discoverLoop_skip)
  qed
qed

lemma frontierExpansion_one_level:
  assumes "frontierExpansion ds pm seedAddress s = Inr (st, s')"
  shows "\<exists>rewardAccounts. getRewardAccounts ds seedAddress = Inr rewardAccounts
           \<and> set (clusterRewardAccounts st) = set rewardAccounts
           \<and> set (clusterAddresses st) = (\<Union>ra \<in> set rewardAccounts. listedUnder ds ra)"
proof -
  let ?init = "\<lparr>clusterAddresses = [], clusterRewardAccounts = [], addressToExplore = [seedAddress]\<rparr>"
  let ?st0 = "\<lparr>clusterAddresses = [], clusterRewardAccounts = [], addressToExplore = []\<rparr>"
  from assms obtain s1 where loop: "discoverLoop ds pm ?init s1 = Inr (st, s')"
    by (auto simp: frontierExpansion_def set_add_def split: sum.splits)
  have "?init\<lparr>addressToExplore := removeAll seedAddress []\<rparr> = ?st0" by simp
  with loop obtain s2 ras st1 s3 where
    ras: "getRewardAccounts ds seedAddress = Inr ras" and
    ex: "exploreRewardAccounts ds pm ras ?st0 s2 = Inr (st1, s3)" and
    rest: "(if addressToExplore st1 \<noteq> [] then discoverLoop ds pm st1 s3 else Inr (st1, s3)) = Inr (st, s')"
    by (auto simp: discoverLoop_expand [of ?init seedAddress "[]"] split: sum.splits)
  from exploreRewardAccounts_pending [OF ex] have "pending st1 = {}"
    by (simp add: pending_def)
  from discoverLoop_drain [OF this, of ds pm s3] rest
  have "clusterRewardAccounts st = clusterRewardAccounts st1 \<and> clusterAddresses st = clusterAddresses st1"
    by (auto split: if_splits)
  with exploreRewardAccounts_sets [OF ex] ras show ?thesis
    by simp
qed


subsection \<open>The test libraries\<close>



subsection \<open>Induction over the turns of the frontier loop\<close>

lemma discoverLoop_cases_induct [consumes 0, case_names Empty Skip Expand]:
  assumes empty: "\<And>st s. addressToExplore st = [] \<Longrightarrow> P st s"
    and skip: "\<And>st s a as. addressToExplore st = a # as \<Longrightarrow> a \<in> set (clusterAddresses st) \<Longrightarrow>
        P (st\<lparr>addressToExplore := removeAll a as\<rparr>) s \<Longrightarrow> P st s"
    and expand: "\<And>st s a as. addressToExplore st = a # as \<Longrightarrow> a \<notin> set (clusterAddresses st) \<Longrightarrow>
        (\<And>s1 ras st1 s2.
            notify pm (''Getting reward accounts for '' @ a @ ''.'') s = Inr s1 \<Longrightarrow>
            getRewardAccounts ds a = Inr ras \<Longrightarrow>
            exploreRewardAccounts ds pm ras (st\<lparr>addressToExplore := removeAll a as\<rparr>) s1 = Inr (st1, s2) \<Longrightarrow>
            addressToExplore st1 \<noteq> [] \<Longrightarrow> P st1 s2) \<Longrightarrow>
        P st s"
  shows "P st s"
  using assms
proof (induction ds pm st s rule: discoverLoop.induct)
  case (1 ds pm st s)
  note empty = "1.prems"(1) and skip = "1.prems"(2) and expand = "1.prems"(3)
  show ?case
  proof (cases "addressToExplore st")
    case Nil
    then show ?thesis by (rule empty)
  next
    case (Cons a as)
    have pop: "(Some a, removeAll a as) = popFromSet (addressToExplore st)"
      using Cons by (simp add: popFromSet_Cons)
    have ne: "length (addressToExplore st) \<noteq> 0"
      using Cons by simp
    show ?thesis
    proof (cases "a \<in> set (clusterAddresses st)")
      case True
      have "P (st\<lparr>addressToExplore := removeAll a as\<rparr>) s"
      proof (rule "1.IH"(1) [OF ne pop refl refl])
        show "a \<in> set (clusterAddresses (st\<lparr>addressToExplore := removeAll a as\<rparr>))"
          using True by simp
      qed (fact empty skip expand)+
      with Cons True show ?thesis by (rule skip)
    next
      case False
      show ?thesis
      proof (rule expand [OF Cons False])
        fix s1 ras st1 s2
        assume s1: "notify pm (''Getting reward accounts for '' @ a @ ''.'') s = Inr s1"
          and ras: "getRewardAccounts ds a = Inr ras"
          and ex: "exploreRewardAccounts ds pm ras (st\<lparr>addressToExplore := removeAll a as\<rparr>) s1 = Inr (st1, s2)"
          and ne1: "addressToExplore st1 \<noteq> []"
        show "P st1 s2"
        proof (rule "1.IH"(2) [OF ne pop refl refl _ s1 ras ex refl])
          show "a \<notin> set (clusterAddresses (st\<lparr>addressToExplore := removeAll a as\<rparr>))"
            using False by simp
          show "0 < length (addressToExplore st1)"
            using ne1 by simp
        qed (fact empty skip expand)+
      qed
    qed
  qed
qed

subsection \<open>The sets of the loop hold each member once\<close>

lemma exploreRewardAccounts_distinct:
  "exploreRewardAccounts ds pm ras st s = Inr (st', s') \<Longrightarrow>
     distinct (clusterAddresses st) \<Longrightarrow> distinct (clusterRewardAccounts st) \<Longrightarrow>
     distinct (clusterAddresses st') \<and> distinct (clusterRewardAccounts st')"
proof (induction ras arbitrary: st s)
  case Nil
  then show ?case by simp
next
  case (Cons ra ras)
  show ?case
  proof (cases "ra \<in> set (clusterRewardAccounts st)")
    case True
    with Cons show ?thesis by simp
  next
    case False
    from Cons.prems(1) False obtain s1 addrs s2 where
      rec: "exploreRewardAccounts ds pm ras
              (st\<lparr>clusterRewardAccounts := set_add ra (clusterRewardAccounts st),
                  addressToExplore := insertRangeInSet addrs (addressToExplore st),
                  clusterAddresses := insertRangeInSet addrs (clusterAddresses st)\<rparr>) s2 = Inr (st', s')"
      by (auto simp: Let_def split: sum.splits)
    show ?thesis
      using Cons.prems(2,3)
      by (intro Cons.IH [OF rec]) (simp_all add: insertRangeInSet_distinct set_add_distinct)
  qed
qed

lemma discoverLoop_distinct:
  "discoverLoop ds pm st s = Inr (st', s') \<Longrightarrow>
     distinct (clusterAddresses st) \<Longrightarrow> distinct (clusterRewardAccounts st) \<Longrightarrow>
     distinct (clusterAddresses st') \<and> distinct (clusterRewardAccounts st')"
proof (induction st s rule: discoverLoop_cases_induct [where ds = ds and pm = pm])
  case (Empty st s)
  then show ?case by (simp add: discoverLoop_Nil)
next
  case (Skip st s a as)
  then show ?case by (simp add: discoverLoop_skip)
next
  case (Expand st s a as)
  let ?st0 = "st\<lparr>addressToExplore := removeAll a as\<rparr>"
  from Expand.prems(1) Expand.hyps obtain s1 ras st1 s2 where
    s1: "notify pm (''Getting reward accounts for '' @ a @ ''.'') s = Inr s1" and
    ras: "getRewardAccounts ds a = Inr ras" and
    ex: "exploreRewardAccounts ds pm ras ?st0 s1 = Inr (st1, s2)" and
    rest: "(if addressToExplore st1 \<noteq> [] then discoverLoop ds pm st1 s2 else Inr (st1, s2)) = Inr (st', s')"
    by (auto simp: discoverLoop_expand split: sum.splits)
  from Expand.prems(2,3) exploreRewardAccounts_distinct [OF ex]
  have d1: "distinct (clusterAddresses st1)" "distinct (clusterRewardAccounts st1)"
    by simp_all
  show ?case
  proof (cases "addressToExplore st1 = []")
    case True
    with rest d1 show ?thesis by simp
  next
    case False
    with rest have "discoverLoop ds pm st1 s2 = Inr (st', s')" by simp
    with s1 ras ex False d1 show ?thesis by (intro Expand.IH)
  qed
qed

section \<open>The claims\<close>

text \<open>
  Claim C1 does not hold of the code.  The loop inserts every address it finds both in
  the frontier and in \<^verbatim>\<open>clusterAddresses\<close>, and skips a popped address that is in
  \<^verbatim>\<open>clusterAddresses\<close>: so no address but the seed is ever expanded, and the seed
  itself is in the cluster only when a reward account lists it
  (\<open>frontierExpansion_one_level\<close>).  On \<open>chainSource\<close> the address \<open>U\<close> is reachable
  from \<open>S\<close> through \<open>T\<close>, and the wallet holds \<open>S\<close> and \<open>T\<close> only.
\<close>

theorem discover_misses_reachable:
  "clusterOf (discover testLibraries ''S'' chainSource None ()) = Inr [''S'', ''T'']
   \<and> ''U'' \<in> reachableFrom chainSource ''S''"
proof -
  have "(''S'', ''T'') \<in> sharesCredential chainSource"
    by (simp add: sharesCredential_def chainSource_def)
  moreover have "(''T'', ''U'') \<in> sharesCredential chainSource"
    by (simp add: sharesCredential_def chainSource_def)
  ultimately have "''U'' \<in> reachableFrom chainSource ''S''"
    unfolding reachableFrom_def by (auto intro: rtrancl_trans)
  moreover have "clusterOf (discover testLibraries ''S'' chainSource None ()) = Inr [''S'', ''T'']"
    by code_simp
  ultimately show ?thesis by simp
qed

text \<open>
  Claim C2.  The loop terminates on every data source: \<open>discoverLoop\<close> is a total
  function, by the termination proof above.  The second half of the claim does not hold
  of the code: on \<open>cyclicSource\<close>, from the seed \<open>A\<close>, the wallet holds \<open>B\<close> alone.
\<close>

theorem discover_cycle_misses_seed:
  "getRewardAccounts cyclicSource ''A'' = Inr [''KA'']
   \<and> getAddresses cyclicSource ''KA'' = Inr [''B'']
   \<and> getRewardAccounts cyclicSource ''B'' = Inr [''KB'']
   \<and> getAddresses cyclicSource ''KB'' = Inr [''A'']
   \<and> clusterOf (discover testLibraries ''A'' cyclicSource None ()) = Inr [''B'']"
  by code_simp

text \<open>
  Claim C3 does not hold of the code.  \<^verbatim>\<open>getRewardAccountInfo\<close> and
  \<^verbatim>\<open>getAddresses\<close> catch a rejected request, but \<^verbatim>\<open>getUtxos\<close> has no \<^verbatim>\<open>try\<close>,
  and \<^verbatim>\<open>getRewardAccounts\<close> calls it without one: on a text that is no address the
  decoder's exception comes out of both, and on an address the provider does not know
  the provider's rejection does.
\<close>

theorem blockfrost_lookups_raise:
  "Blockfrost_getRewardAccounts testLibraries testBlockfrost ''not an address'' = Inl InvalidAddress
   \<and> Blockfrost_getUtxos testLibraries testBlockfrost ''not an address'' = Inl InvalidAddress
   \<and> Blockfrost_getRewardAccounts testLibraries testBlockfrost ''U'' = Inl (ProviderError ''404 Not Found'')
   \<and> Blockfrost_getUtxos testLibraries testBlockfrost ''U'' = Inl (ProviderError ''404 Not Found'')
   \<and> Blockfrost_getRewardAccountInfo testLibraries testBlockfrost ''not a reward account'' = Inr None
   \<and> Blockfrost_getAddresses testBlockfrost ''not a reward account'' = Inr []"
  by code_simp

text \<open>
  Claim C4.  Whatever the seed address, the data source and the progress monitor, the
  UTXO list of a wallet that \<^verbatim>\<open>discover\<close> returns holds at most one entry for each
  pair of transaction hash and output index, also when the running list
  \<^verbatim>\<open>clusterUtxos\<close> held the same output several times.
\<close>

theorem discover_utxos_unique:
  assumes "discover lib seedAddress blockchainExplorer progressMonitor s = Inr (wallet, s')"
  shows "distinct (map (\<lambda>u. (txHash u, index u)) (getUTXOs wallet))"
proof -
  from discover_wallet [OF assms] obtain clusterUtxos
    where "getUTXOs wallet = uniqueUtxos clusterUtxos"
    by blast
  then show ?thesis
    by (simp add: uniqueUtxos_distinct)
qed

text \<open>
  On the example source the output \<open>(tx1, 0)\<close> is fetched twice, for \<open>S\<close> and for
  \<open>T\<close>, and \<open>T\<close> is listed under both reward accounts; the wallet holds the output
  once.
\<close>

theorem discover_utxos_unique_witness:
  "\<exists>wallet s'. discover testLibraries ''S'' exampleSource None () = Inr (wallet, s')
      \<and> map (\<lambda>u. (txHash u, index u)) (getUTXOs wallet) = [(''tx1'', 0), (''tx2'', 0), (''tx1'', 1)]
      \<and> distinct (map (\<lambda>u. (txHash u, index u)) (getUTXOs wallet))"
proof -
  obtain wallet s' where run: "discover testLibraries ''S'' exampleSource None () = Inr (wallet, s')"
    using example_returns by (cases "discover testLibraries ''S'' exampleSource None ()") auto
  have "map (\<lambda>u. (txHash u, index u)) (getUTXOs wallet) = [(''tx1'', 0), (''tx2'', 0), (''tx1'', 1)]"
    using example_run run by simp
  with run discover_utxos_unique [OF run] show ?thesis
    by (intro exI conjI)
qed

text \<open>
  Claim C5.  The balance of a wallet that \<^verbatim>\<open>discover\<close> returns is what
  \<^verbatim>\<open>coalesceValueQuantities\<close> makes of the values of the wallet's own
  (deduplicated) UTXO list.  With a library function that is the coalesced sum, the
  coins of the balance are the sum of the coins of these UTXOs, and for every asset id
  the quantity of the balance is the sum of the quantities they hold of that asset.
\<close>

theorem discover_balance_coherent:
  assumes "discover lib seedAddress blockchainExplorer progressMonitor s = Inr (wallet, s')"
  shows "getBalance wallet = coalesceValueQuantities lib (map value' (getUTXOs wallet))
       \<and> (coalescesPointwise (coalesceValueQuantities lib) \<longrightarrow>
            coins (getBalance wallet) = (\<Sum>u\<leftarrow>getUTXOs wallet. coins (value' u))
          \<and> (\<forall>assetId. quantityOf (assets (getBalance wallet)) assetId
                = (\<Sum>u\<leftarrow>getUTXOs wallet. quantityOf (assets (value' u)) assetId)))"
proof -
  from discover_wallet [OF assms]
  have b: "getBalance wallet = coalesceValueQuantities lib (map value' (getUTXOs wallet))"
    by blast
  have "coins (getBalance wallet) = (\<Sum>u\<leftarrow>getUTXOs wallet. coins (value' u))
      \<and> (\<forall>assetId. quantityOf (assets (getBalance wallet)) assetId
            = (\<Sum>u\<leftarrow>getUTXOs wallet. quantityOf (assets (value' u)) assetId))"
    if "coalescesPointwise (coalesceValueQuantities lib)"
    using that by (simp add: b coalescesPointwise_def comp_def)
  with b show ?thesis by blast
qed

text \<open>
  On the example source the three outputs kept hold 600, 100 and 400 coins, 2 and 3
  \<open>gold\<close> and 1 \<open>silver\<close>; the output fetched twice counts once.
\<close>

theorem discover_balance_coherent_witness:
  "coalescesPointwise (coalesceValueQuantities testLibraries)
   \<and> (\<exists>wallet s'. discover testLibraries ''S'' exampleSource None () = Inr (wallet, s')
      \<and> getBalance wallet = \<lparr>coins = 1100, assets = [(''gold'', 5), (''silver'', 1)]\<rparr>
      \<and> coins (getBalance wallet) = (\<Sum>u\<leftarrow>getUTXOs wallet. coins (value' u))
      \<and> quantityOf (assets (getBalance wallet)) ''gold''
           = (\<Sum>u\<leftarrow>getUTXOs wallet. quantityOf (assets (value' u)) ''gold''))"
proof -
  have pw: "coalescesPointwise (coalesceValueQuantities testLibraries)"
    by (simp add: testLibraries_coalesce coalescePointwise_pointwise)
  obtain wallet s' where run: "discover testLibraries ''S'' exampleSource None () = Inr (wallet, s')"
    using example_returns by (cases "discover testLibraries ''S'' exampleSource None ()") auto
  have bal: "getBalance wallet = \<lparr>coins = 1100, assets = [(''gold'', 5), (''silver'', 1)]\<rparr>"
    using example_run run by simp
  from discover_balance_coherent [OF run] pw
  have coherent: "coins (getBalance wallet) = (\<Sum>u\<leftarrow>getUTXOs wallet. coins (value' u))
      \<and> (\<forall>assetId. quantityOf (assets (getBalance wallet)) assetId
            = (\<Sum>u\<leftarrow>getUTXOs wallet. quantityOf (assets (value' u)) assetId))"
    by blast
  from coherent have c: "coins (getBalance wallet) = (\<Sum>u\<leftarrow>getUTXOs wallet. coins (value' u))"
    by (rule conjunct1)
  from coherent have g: "quantityOf (assets (getBalance wallet)) ''gold''
      = (\<Sum>u\<leftarrow>getUTXOs wallet. quantityOf (assets (value' u)) ''gold'')"
    by blast
  from run bal c g
  have "\<exists>wallet s'. discover testLibraries ''S'' exampleSource None () = Inr (wallet, s')
      \<and> getBalance wallet = \<lparr>coins = 1100, assets = [(''gold'', 5), (''silver'', 1)]\<rparr>
      \<and> coins (getBalance wallet) = (\<Sum>u\<leftarrow>getUTXOs wallet. coins (value' u))
      \<and> quantityOf (assets (getBalance wallet)) ''gold''
           = (\<Sum>u\<leftarrow>getUTXOs wallet. quantityOf (assets (value' u)) ''gold'')"
    by (intro exI conjI)
  with pw show ?thesis by (rule conjI)
qed

text \<open>
  Claim C6.  First, of every wallet that \<^verbatim>\<open>discover\<close> returns: its reward-account
  list holds the infos of the reward accounts recorded by the frontier loop, in order,
  an account whose info is absent (\<^verbatim>\<open>null\<close>) contributing nothing
  (\<open>retainedInfo\<close>); \<^verbatim>\<open>getRewards\<close> is the sum of the \<^verbatim>\<open>rewards\<close> of exactly these
  infos; and every address that \<^verbatim>\<open>getAddresses\<close> lists for a recorded reward
  account, with or without info, is an address of the wallet.  Second, an absent info
  does not make \<^verbatim>\<open>discover\<close> fail: when no lookup of the data source rejects, the
  addresses it lists are addresses with a payment part, and the monitor (if any) does
  not throw, \<^verbatim>\<open>discover\<close> returns a wallet.
\<close>

theorem discover_absent_reward_info:
  "(\<forall>wallet s'.
      discover lib seedAddress blockchainExplorer progressMonitor s = Inr (wallet, s') \<longrightarrow>
      (\<exists>st s2.
          frontierExpansion blockchainExplorer progressMonitor seedAddress s = Inr (st, s2)
        \<and> getRewardAccountsW wallet
            = concat (map (retainedInfo blockchainExplorer) (clusterRewardAccounts st))
        \<and> getRewards wallet = (\<Sum>info\<leftarrow>getRewardAccountsW wallet. rewards info)
        \<and> (\<forall>rewardAccount \<in> set (clusterRewardAccounts st). \<forall>addresses.
              getAddresses blockchainExplorer rewardAccount = Inr addresses \<longrightarrow>
              set addresses \<subseteq> addressAI ` set (getAddressesW wallet))))
 \<and> (neverRejects blockchainExplorer \<and> listsPaymentAddresses lib blockchainExplorer
        \<and> quiet progressMonitor \<longrightarrow>
      (\<exists>wallet s'. discover lib seedAddress blockchainExplorer progressMonitor s = Inr (wallet, s')))"
proof (intro conjI allI impI)
  fix wallet s'
  assume run: "discover lib seedAddress blockchainExplorer progressMonitor s = Inr (wallet, s')"
  from discover_reward_accounts [OF run] obtain st s2 where
    fe: "frontierExpansion blockchainExplorer progressMonitor seedAddress s = Inr (st, s2)" and
    ra: "getRewardAccountsW wallet = concat (map (retainedInfo blockchainExplorer) (clusterRewardAccounts st))" and
    ad: "map addressAI (getAddressesW wallet) = clusterAddresses st"
    by blast
  from discover_wallet [OF run]
  have sum: "getRewards wallet = (\<Sum>info\<leftarrow>getRewardAccountsW wallet. rewards info)"
    by blast
  from frontierExpansion_inv [OF fe] have "linked blockchainExplorer st" by simp
  moreover from ad have "addressAI ` set (getAddressesW wallet) = set (clusterAddresses st)"
    by (metis set_map)
  ultimately have "\<forall>rewardAccount \<in> set (clusterRewardAccounts st). \<forall>addresses.
               getAddresses blockchainExplorer rewardAccount = Inr addresses \<longrightarrow>
               set addresses \<subseteq> addressAI ` set (getAddressesW wallet)"
    unfolding linked_def by blast
  with fe ra sum show "\<exists>st s2.
          frontierExpansion blockchainExplorer progressMonitor seedAddress s = Inr (st, s2)
        \<and> getRewardAccountsW wallet
            = concat (map (retainedInfo blockchainExplorer) (clusterRewardAccounts st))
        \<and> getRewards wallet = (\<Sum>info\<leftarrow>getRewardAccountsW wallet. rewards info)
        \<and> (\<forall>rewardAccount \<in> set (clusterRewardAccounts st). \<forall>addresses.
              getAddresses blockchainExplorer rewardAccount = Inr addresses \<longrightarrow>
              set addresses \<subseteq> addressAI ` set (getAddressesW wallet))"
    by blast
next
  assume "neverRejects blockchainExplorer \<and> listsPaymentAddresses lib blockchainExplorer
        \<and> quiet progressMonitor"
  then show "\<exists>wallet s'. discover lib seedAddress blockchainExplorer progressMonitor s = Inr (wallet, s')"
    by (intro discover_returns) simp_all
qed

text \<open>
  On the example source the info of \<open>K1\<close> is absent: the run returns a wallet that
  lists \<open>K2\<close> alone, its rewards are those of \<open>K2\<close>, and \<open>S\<close> and \<open>T\<close>, listed under
  \<open>K1\<close>, are among its addresses.
\<close>

theorem discover_absent_reward_info_witness:
  "neverRejects exampleSource \<and> listsPaymentAddresses testLibraries exampleSource
   \<and> quiet (None :: unit monitor option)
   \<and> getRewardAccountInfo exampleSource ''K1'' = Inr None
   \<and> getAddresses exampleSource ''K1'' = Inr [''S'', ''T'']
   \<and> (\<exists>wallet s'. discover testLibraries ''S'' exampleSource None () = Inr (wallet, s')
        \<and> map stakingCredential (getRewardAccountsW wallet) = [''K2'']
        \<and> getRewards wallet = 50
        \<and> {''S'', ''T''} \<subseteq> addressAI ` set (getAddressesW wallet))"
proof -
  have q: "quiet (None :: unit monitor option)"
    by (simp add: quiet_def)
  note claim = discover_absent_reward_info [of testLibraries "''S''" exampleSource None "()"]
  from claim exampleSource_neverRejects exampleSource_lists q
  obtain wallet s' where
    run: "discover testLibraries ''S'' exampleSource None () = Inr (wallet, s')"
    by blast
  with claim obtain st s2 where
    fe: "frontierExpansion exampleSource None ''S'' () = Inr (st, s2)" and
    ra: "getRewardAccountsW wallet = concat (map (retainedInfo exampleSource) (clusterRewardAccounts st))" and
    sum: "getRewards wallet = (\<Sum>info\<leftarrow>getRewardAccountsW wallet. rewards info)" and
    ad: "\<forall>rewardAccount \<in> set (clusterRewardAccounts st). \<forall>addresses.
               getAddresses exampleSource rewardAccount = Inr addresses \<longrightarrow>
               set addresses \<subseteq> addressAI ` set (getAddressesW wallet)"
    by blast
  from fe example_frontier
  have "Inr (st, s2) = (Inr (\<lparr>clusterAddresses = [''S'', ''T'', ''U''],
      clusterRewardAccounts = [''K1'', ''K2''], addressToExplore = []\<rparr>, ()) :: failure + discovery \<times> unit)"
    by (rule trans [OF sym])
  then have st: "clusterRewardAccounts st = [''K1'', ''K2'']"
    by (simp add: sum.inject)
  have k1: "getRewardAccountInfo exampleSource ''K1'' = Inr None"
    and a1: "getAddresses exampleSource ''K1'' = Inr [''S'', ''T'']"
    by (simp_all add: exampleSource_def)
  from ra st have infos: "getRewardAccountsW wallet
      = [\<lparr>stakingCredential = ''K2'', rewards = 50, stakedAmount = 1000, poolId = Some ''P1''\<rparr>]"
    by (simp add: retainedInfo_def exampleSource_def)
  from st have "''K1'' \<in> set (clusterRewardAccounts st)" by simp
  with ad a1 have "set [''S'', ''T''] \<subseteq> addressAI ` set (getAddressesW wallet)"
    by blast
  then have remain: "{''S'', ''T''} \<subseteq> addressAI ` set (getAddressesW wallet)"
    by simp
  from infos sum have total: "getRewards wallet = 50" by simp
  from infos have kept: "map stakingCredential (getRewardAccountsW wallet) = [''K2'']" by simp
  from run kept total remain
  have "\<exists>wallet s'. discover testLibraries ''S'' exampleSource None () = Inr (wallet, s')
        \<and> map stakingCredential (getRewardAccountsW wallet) = [''K2'']
        \<and> getRewards wallet = 50
        \<and> {''S'', ''T''} \<subseteq> addressAI ` set (getAddressesW wallet)"
    by (intro exI conjI)
  with exampleSource_neverRejects exampleSource_lists q k1 a1 show ?thesis
    by (intro conjI)
qed

text \<open>
  Claim C7 does not hold of the code when the address without reward account is the
  seed: on \<open>unstakedSource\<close> the seed \<open>U\<close> has a payment credential, no staking
  credential and an output of 600 coins, and the wallet returned has no address, no
  UTXO and a balance of zero.
\<close>

theorem discover_unstaked_seed_empty:
  "getUtxos unstakedSource ''U'' = Inr [utxoOf ''tx9'' 0 600 [] ''U'']
   \<and> getPaymentCredential testLibraries ''U'' = Inr ''addr_vkh1bb''
   \<and> getStakingCredential testLibraries ''U'' 0 = Inr None
   \<and> discover testLibraries ''U'' unstakedSource None ()
       = Inr (\<lparr>p_utxos = [], p_clusterAddresses = [], p_clusterRewardAccounts = [],
               p_balance = \<lparr>coins = 0, assets = []\<rparr>, p_rewards = 0\<rparr>, ())"
  by code_simp




text \<open>
  Claim C9, as amended.  The claim as stated fails: \<^verbatim>\<open>progressMonitor?.update\<close> is
  called with no \<^verbatim>\<open>try\<close> around it, so a monitor that throws ends the discovery
  with its exception (see the counterexample below).  What holds: for a monitor whose
  \<^verbatim>\<open>update\<close> returns normally on every message, \<^verbatim>\<open>discover\<close> with the monitor
  returns the same wallet, or fails with the same failure, as \<^verbatim>\<open>discover\<close> with no
  monitor at all.
\<close>

theorem discover_monitor_observational:
  assumes quiet: "neverThrows update"
  shows "map_sum id fst (discover lib seedAddress blockchainExplorer (Some update) s)
       = map_sum id fst (discover lib seedAddress blockchainExplorer None u)"
proof -
  note same = frontierExpansion_monitor [OF quiet, of blockchainExplorer seedAddress s u]
  show ?thesis
  proof (cases "frontierExpansion blockchainExplorer (Some update) seedAddress s")
    case (Inl e)
    with same have "frontierExpansion blockchainExplorer None seedAddress u = Inl e"
      by (cases "frontierExpansion blockchainExplorer None seedAddress u") auto
    with Inl show ?thesis by (simp add: discover_def)
  next
    case (Inr r)
    obtain st s2 where r: "r = (st, s2)" by (cases r)
    with same Inr obtain u2 where none: "frontierExpansion blockchainExplorer None seedAddress u = Inr (st, u2)"
      by (cases "frontierExpansion blockchainExplorer None seedAddress u") auto
    obtain s3 where s3: "notify (Some update) ''Cluster discovery complete.'' s2 = Inr s3"
      using notify_quiet [OF quiet] by blast
    from Inr r none s3 show ?thesis
      by (simp add: discover_def Let_def split: sum.splits prod.splits)
  qed
qed

text \<open>The logging monitor never throws; with it the run gives the wallet of the silent run.\<close>

theorem discover_monitor_observational_witness:
  "neverThrows loggingMonitor
   \<and> map_sum id fst (discover testLibraries ''S'' exampleSource (Some loggingMonitor) [])
       = map_sum id fst (discover testLibraries ''S'' exampleSource None ())"
  using discover_monitor_observational [OF loggingMonitor_quiet, of testLibraries "''S''" exampleSource "[]" "()"]
    loggingMonitor_quiet
  by simp

text \<open>
  The counterexample to C9 as stated: with the monitor that throws, the discovery fails
  at the first notification; with no monitor, the same seed and data source give a
  wallet.
\<close>

theorem discover_monitor_counterexample:
  "discover testLibraries ''S'' exampleSource (Some throwingMonitor) ()
     = Inl (Thrown (SinkError ''sink is down''))
   \<and> \<not> isl (discover testLibraries ''S'' exampleSource None ())"
  by code_simp

text \<open>
  Claim C10.  \<^verbatim>\<open>_popFromSet\<close> returns \<^verbatim>\<open>undefined\<close> on the empty set and on no
  other; in \<^verbatim>\<open>discover\<close> it is called only after the test
  \<^verbatim>\<open>addressToExplore.size === 0\<close> has failed, so no run of the loop, from whatever
  state, and no run of \<^verbatim>\<open>discover\<close>, whatever the seed, the data source and the
  progress monitor, goes on with \<^verbatim>\<open>undefined\<close> for the popped address.
\<close>

theorem discover_pop_defined:
  "(fst (popFromSet frontier) = None) = (frontier = [])
   \<and> discoverLoop blockchainExplorer progressMonitor st s \<noteq> Inl UndefinedAddress
   \<and> discover lib seedAddress blockchainExplorer progressMonitor s \<noteq> Inl UndefinedAddress"
proof -
  have "(fst (popFromSet frontier) = None) = (frontier = [])"
    by (cases frontier) (simp_all add: popFromSet_def)
  moreover have "discover lib seedAddress blockchainExplorer progressMonitor s \<noteq> Inl UndefinedAddress"
    by (auto simp: discover_def Let_def split: sum.splits prod.splits)
  ultimately show ?thesis by simp
qed

text \<open>The run on the example source, and the pop of a frontier of one address.\<close>

theorem discover_pop_defined_witness:
  "fst (popFromSet [''S'']) \<noteq> None
   \<and> discoverLoop exampleSource None
        \<lparr>clusterAddresses = [], clusterRewardAccounts = [], addressToExplore = [''S'']\<rparr> ()
       \<noteq> Inl UndefinedAddress
   \<and> discover testLibraries ''S'' exampleSource None () \<noteq> Inl UndefinedAddress"
  using discover_pop_defined [of "[''S'']" exampleSource None
      "\<lparr>clusterAddresses = [], clusterRewardAccounts = [], addressToExplore = [''S'']\<rparr>" "()"
      testLibraries "''S''"]
  by simp

section \<open>Further properties\<close>

text \<open>
  A wallet that \<^verbatim>\<open>discover\<close> returns lists every address at most
  once: \<^verbatim>\<open>clusterAddresses\<close> is a \<^verbatim>\<open>Set\<close>, and one \<^verbatim>\<open>AddressInfo\<close> is pushed
  for each of its members.
\<close>

theorem discover_addresses_once:
  assumes "discover lib seedAddress blockchainExplorer progressMonitor s = Inr (wallet, s')"
  shows "distinct (map addressAI (getAddressesW wallet))"
proof -
  from discover_reward_accounts [OF assms] obtain st s2 where
    fe: "frontierExpansion blockchainExplorer progressMonitor seedAddress s = Inr (st, s2)" and
    ad: "map addressAI (getAddressesW wallet) = clusterAddresses st"
    by blast
  from fe obtain s1 where "discoverLoop blockchainExplorer progressMonitor
      \<lparr>clusterAddresses = [], clusterRewardAccounts = [], addressToExplore = set_add seedAddress []\<rparr> s1
        = Inr (st, s2)"
    by (auto simp: frontierExpansion_def split: sum.splits)
  from discoverLoop_distinct [OF this] have "distinct (clusterAddresses st)"
    by simp
  with ad show ?thesis by simp
qed

theorem discover_addresses_once_witness:
  "\<exists>wallet s'. discover testLibraries ''S'' exampleSource None () = Inr (wallet, s')
      \<and> distinct (map addressAI (getAddressesW wallet))"
proof -
  obtain wallet s' where run: "discover testLibraries ''S'' exampleSource None () = Inr (wallet, s')"
    using example_returns by (cases "discover testLibraries ''S'' exampleSource None ()") auto
  from run discover_addresses_once [OF run] show ?thesis
    by (intro exI conjI)
qed

text \<open>
  Every address of a wallet that \<^verbatim>\<open>discover\<close> returns is reachable
  from the seed through the links the data source reveals (the inclusion of claim C1
  that the code does satisfy).
\<close>

theorem discover_cluster_reachable:
  assumes "discover lib seedAddress blockchainExplorer progressMonitor s = Inr (wallet, s')"
  shows "addressAI ` set (getAddressesW wallet) \<subseteq> reachableFrom blockchainExplorer seedAddress"
proof
  fix a
  assume a: "a \<in> addressAI ` set (getAddressesW wallet)"
  from discover_reward_accounts [OF assms] obtain st s2 where
    fe: "frontierExpansion blockchainExplorer progressMonitor seedAddress s = Inr (st, s2)" and
    ad: "map addressAI (getAddressesW wallet) = clusterAddresses st"
    by blast
  from ad have "addressAI ` set (getAddressesW wallet) = set (clusterAddresses st)"
    by (metis set_map)
  with a have "a \<in> set (clusterAddresses st)" by simp
  with frontierExpansion_one_level [OF fe] obtain ras ra where
    ras: "getRewardAccounts blockchainExplorer seedAddress = Inr ras" and
    ra: "ra \<in> set ras" and l: "a \<in> listedUnder blockchainExplorer ra"
    by auto
  from l obtain as where "getAddresses blockchainExplorer ra = Inr as" "a \<in> set as"
    by (auto simp: listedUnder_def split: sum.splits)
  with ras ra have "(seedAddress, a) \<in> sharesCredential blockchainExplorer"
    unfolding sharesCredential_def by blast
  then show "a \<in> reachableFrom blockchainExplorer seedAddress"
    by (simp add: reachableFrom_def)
qed

theorem discover_cluster_reachable_witness:
  "\<exists>wallet s'. discover testLibraries ''S'' chainSource None () = Inr (wallet, s')
      \<and> addressAI ` set (getAddressesW wallet) \<subseteq> reachableFrom chainSource ''S''"
proof -
  have "\<not> isl (discover testLibraries ''S'' chainSource None ())"
    by code_simp
  then obtain wallet s' where run: "discover testLibraries ''S'' chainSource None () = Inr (wallet, s')"
    by (cases "discover testLibraries ''S'' chainSource None ()") auto
  from run discover_cluster_reachable [OF run] show ?thesis
    by (intro exI conjI)
qed

text \<open>
  The two lookups of the Blockfrost data source that stand in a
  \<^verbatim>\<open>try\<close>: \<^verbatim>\<open>getAddresses\<close> never fails and gives the empty array when the
  provider rejects the request, and \<^verbatim>\<open>getRewardAccountInfo\<close> gives \<^verbatim>\<open>null\<close> when
  the provider rejects the request.
\<close>

theorem blockfrost_caught_lookups:
  "\<not> isl (Blockfrost_getAddresses this stakeCredential)
   \<and> (isl (accountsAddresses (p_api this) stakeCredential) \<longrightarrow>
        Blockfrost_getAddresses this stakeCredential = Inr [])
   \<and> (isl (accounts (p_api this) rewardAccount) \<longrightarrow>
        Blockfrost_getRewardAccountInfo lib this rewardAccount = Inr None)"
  by (auto simp: Blockfrost_getAddresses_def Blockfrost_getRewardAccountInfo_def split: sum.splits)

theorem blockfrost_caught_lookups_witness:
  "isl (accountsAddresses (p_api testBlockfrost) ''K'')
   \<and> isl (accounts (p_api testBlockfrost) ''K'')
   \<and> Blockfrost_getAddresses testBlockfrost ''K'' = Inr []
   \<and> Blockfrost_getRewardAccountInfo testLibraries testBlockfrost ''K'' = Inr None"
proof -
  have a: "isl (accountsAddresses (p_api testBlockfrost) ''K'')"
    and b: "isl (accounts (p_api testBlockfrost) ''K'')"
    by (simp_all add: testBlockfrost_def newBlockfrostBlockchainDataSource_def testApi_def)
  from blockfrost_caught_lookups [of testBlockfrost "''K''" "''K''" testLibraries] a b
  show ?thesis by blast
qed


text \<open>
  The scenario of the spec's section 8 runs as the spec expects: the cluster is \<open>S\<close>
  and \<open>T\<close>, the one reward account is \<open>K1\<close>, the coins are 1000 and the rewards 50.
\<close>

lemma scenario_run:
  "map_sum id
     (\<lambda>(w, s). (map addressAI (getAddressesW w), map stakingCredential (getRewardAccountsW w),
                 coins (getBalance w), getRewards w))
     (discover testLibraries ''S'' scenarioSource None ())
   = Inr ([''S'', ''T''], [''K1''], 1000, 50)"
  by code_simp

end
